theory Spec2Isabelle
  imports Main "HOL-Library.Word" "HOL-Library.List_Lexorder" "HOL-Library.Char_ord"
begin

unbundle bit_operations_syntax

section \<open>The file table of the NFS server (src/slirp/nfs/FileTable.cpp)\<close>

text \<open>
  The embedding follows \<^verbatim>\<open>FileTable.cpp\<close> and the classes declared in
  \<^verbatim>\<open>FileTable.h\<close>: \<^verbatim>\<open>FileAttrs\<close> (one overlay record),
  \<^verbatim>\<open>FileAttrDB\<close> (the per-directory store with its sidecar file) and
  \<^verbatim>\<open>FileTable\<close> (the handle registry, the cache of stores and the dirty set).
  The mutex is not modelled: every operation is one atomic state transformer. Strings are
  C strings without NUL characters. Everything the code obtains from the host (the C
  library and the file system) is a field of the record \<open>host\<close>, which every operation
  takes as an argument, so the host may differ from one call to the next.
\<close>

subsection \<open>FileAttrs and struct stat\<close>

text \<open>The field \<^verbatim>\<open>size\<close> is called \<open>size_attr\<close> (\<open>size\<close> is a HOL constant).\<close>

record FileAttrs =
  mode :: "32 word"
  uid :: "32 word"
  gid :: "32 word"
  size_attr :: "32 word"
  atime_sec :: "32 word"
  atime_nsec :: "32 word"
  mtime_sec :: "32 word"
  mtime_nsec :: "32 word"
  reserved :: "32 word"

text \<open>The fields of \<^verbatim>\<open>struct stat\<close> that the code reads or writes (LP64 widths).\<close>

record struct_stat =
  st_dev :: "64 word"
  st_ino :: "64 word"
  st_mode :: "32 word"
  st_uid :: "32 word"
  st_gid :: "32 word"
  st_size :: "64 word"
  st_atimespec_sec :: "64 word"
  st_atimespec_nsec :: "64 word"
  st_mtimespec_sec :: "64 word"
  st_mtimespec_nsec :: "64 word"

text \<open>\<^verbatim>\<open>FileAttrs::FileAttrs(const struct stat*)\<close>: the wider fields are truncated.\<close>

definition FileAttrs_stat :: "struct_stat \<Rightarrow> FileAttrs" where
  "FileAttrs_stat s =
     \<lparr> mode = st_mode s, uid = st_uid s, gid = st_gid s,
       size_attr = ucast (st_size s),
       atime_sec = ucast (st_atimespec_sec s), atime_nsec = ucast (st_atimespec_nsec s),
       mtime_sec = ucast (st_mtimespec_sec s), mtime_nsec = ucast (st_mtimespec_nsec s),
       reserved = 0 \<rparr>"

text \<open>\<^verbatim>\<open>FileAttrs::Update\<close> copies every field, so the updated record is the argument.\<close>

definition Update :: "FileAttrs \<Rightarrow> FileAttrs \<Rightarrow> FileAttrs" where
  "Update this fattrs =
     this\<lparr> mode := mode fattrs, uid := uid fattrs, gid := gid fattrs,
           size_attr := size_attr fattrs,
           atime_sec := atime_sec fattrs, atime_nsec := atime_nsec fattrs,
           mtime_sec := mtime_sec fattrs, mtime_nsec := mtime_nsec fattrs,
           reserved := reserved fattrs \<rparr>"

definition Valid :: "32 word \<Rightarrow> bool" where
  "Valid statval = (statval \<noteq> 0xFFFFFFFF)"

text \<open>\<^verbatim>\<open>S_IFMT\<close> of \<^verbatim>\<open>sys/stat.h\<close>, octal 0170000.\<close>

definition S_IFMT :: "32 word" where
  "S_IFMT = 0xF000"

text \<open>
  \<^verbatim>\<open>filename\<close>: the part after the last slash or backslash; without one,
  \<^verbatim>\<open>find_last_of\<close> is \<^verbatim>\<open>npos\<close>, \<^verbatim>\<open>npos + 1\<close> is 0, and the result is the whole path.\<close>

definition filename :: "string \<Rightarrow> string" where
  "filename p = rev (takeWhile (\<lambda>c. c \<noteq> CHR ''/'' \<and> c \<noteq> CHR 0x5C) (rev p))"

subsection \<open>File handles\<close>

definition rotl :: "64 word \<Rightarrow> nat \<Rightarrow> 64 word" where
  "rotl x n = (push_bit n x) OR (drop_bit (64 - n) x)"

definition make_file_handle :: "struct_stat \<Rightarrow> 64 word" where
  "make_file_handle fstat =
     (let result = rotl (st_dev fstat) 32 XOR st_ino fstat
      in if result = 0 then NOT result else result)"

subsection \<open>The text of one record: fprintf and fscanf\<close>

text \<open>
  \<^verbatim>\<open>FileAttrs::Write\<close> prints \<^verbatim>\<open>"0%o:%d:%d:%d:%s\n"\<close>. \<open>digits b n\<close> is the
  numeral of \<open>n\<close> in base \<open>b\<close> without leading zeros; \<^verbatim>\<open>%o\<close> prints the unsigned
  value in base 8 and \<^verbatim>\<open>%d\<close> the two's complement value in base 10.\<close>

definition digit_char :: "nat \<Rightarrow> char" where
  "digit_char d = char_of (48 + d)"

function digits :: "nat \<Rightarrow> nat \<Rightarrow> string" where
  "digits b n = (if n < b \<or> b < 2 then [digit_char n]
                 else digits b (n div b) @ [digit_char (n mod b)])"
  by pat_completeness auto
termination
  by (relation "measure snd") auto

declare digits.simps [simp del]

definition printf_o :: "32 word \<Rightarrow> string" where
  "printf_o w = digits 8 (unat w)"

definition printf_d :: "32 word \<Rightarrow> string" where
  "printf_d w = (if sint w < 0 then CHR ''-'' # digits 10 (nat (- sint w))
                 else digits 10 (nat (sint w)))"

definition FileAttrs_Write :: "FileAttrs \<Rightarrow> string \<Rightarrow> string" where
  "FileAttrs_Write this name =
     ''0'' @ printf_o (mode this) @ '':'' @ printf_d (uid this) @ '':'' @
     printf_d (gid this) @ '':'' @ printf_d (reserved this) @ '':'' @ name @ [CHR 0x0A]"

text \<open>
  \<^verbatim>\<open>fscanf\<close>, as the C standard describes it, for the directives the format uses.
  A literal character must match the next input character. A white-space directive skips
  all white space. \<^verbatim>\<open>%o\<close> and \<^verbatim>\<open>%d\<close> skip white space, then read an optional sign and
  the longest run of digits of the base; \<^verbatim>\<open>%s\<close> skips white space and reads the longest
  run of characters that are not white space. A directive that finds the input at its end
  is an input failure, one that finds a character it cannot use is a matching failure.
  The call returns the number of values assigned, or \<^verbatim>\<open>EOF\<close> (-1) after an input
  failure before the first assignment. A numeral too large for 32 bits is stored modulo
  \<open>2 ^ 32\<close>.\<close>

definition is_space :: "char \<Rightarrow> bool" where
  "is_space c = (c = CHR '' '' \<or> c = CHR 0x09 \<or> c = CHR 0x0A \<or> c = CHR 0x0B \<or>
                 c = CHR 0x0C \<or> c = CHR 0x0D)"

definition is_digit :: "nat \<Rightarrow> char \<Rightarrow> bool" where
  "is_digit b c = (48 \<le> (of_char c :: nat) \<and> (of_char c :: nat) < 48 + b)"

definition digit_val :: "char \<Rightarrow> nat" where
  "digit_val c = of_char c - 48"

definition digits_value :: "nat \<Rightarrow> string \<Rightarrow> nat" where
  "digits_value b ds = foldl (\<lambda>a c. a * b + digit_val c) 0 ds"

datatype directive = Lit char | WS | ConvO | ConvD | ConvS

datatype scanval = Num "32 word" | Str string

datatype 'a item = InputFailure | MatchingFailure string | Item 'a string

definition scan_int :: "nat \<Rightarrow> string \<Rightarrow> (32 word) item" where
  "scan_int b s =
     (case dropWhile is_space s of
        [] \<Rightarrow> InputFailure
      | c # r \<Rightarrow>
          (let neg = (c = CHR ''-'');
               t = (if c = CHR ''-'' \<or> c = CHR ''+'' then r else c # r);
               ds = takeWhile (is_digit b) t
           in if ds = [] then MatchingFailure t
              else Item (if neg then - of_nat (digits_value b ds) else of_nat (digits_value b ds))
                        (dropWhile (is_digit b) t)))"

definition scan_str :: "string \<Rightarrow> string item" where
  "scan_str s =
     (case dropWhile is_space s of
        [] \<Rightarrow> InputFailure
      | c # r \<Rightarrow> Item (takeWhile (\<lambda>x. \<not> is_space x) (c # r))
                      (dropWhile (\<lambda>x. \<not> is_space x) (c # r)))"

definition EOF :: int where
  "EOF = - 1"

definition input_failure :: "scanval list \<Rightarrow> int \<times> scanval list \<times> string" where
  "input_failure vs = (if vs = [] then EOF else int (length vs), vs, [])"

fun vfscanf :: "directive list \<Rightarrow> string \<Rightarrow> scanval list \<Rightarrow> int \<times> scanval list \<times> string" where
  "vfscanf [] s vs = (int (length vs), vs, s)"
| "vfscanf (Lit c # ds) s vs =
     (case s of
        [] \<Rightarrow> input_failure vs
      | x # r \<Rightarrow> if x = c then vfscanf ds r vs else (int (length vs), vs, s))"
| "vfscanf (WS # ds) s vs = vfscanf ds (dropWhile is_space s) vs"
| "vfscanf (ConvO # ds) s vs =
     (case scan_int 8 s of
        InputFailure \<Rightarrow> input_failure vs
      | MatchingFailure r \<Rightarrow> (int (length vs), vs, r)
      | Item w r \<Rightarrow> vfscanf ds r (vs @ [Num w]))"
| "vfscanf (ConvD # ds) s vs =
     (case scan_int 10 s of
        InputFailure \<Rightarrow> input_failure vs
      | MatchingFailure r \<Rightarrow> (int (length vs), vs, r)
      | Item w r \<Rightarrow> vfscanf ds r (vs @ [Num w]))"
| "vfscanf (ConvS # ds) s vs =
     (case scan_str s of
        InputFailure \<Rightarrow> input_failure vs
      | MatchingFailure r \<Rightarrow> (int (length vs), vs, r)
      | Item n r \<Rightarrow> vfscanf ds r (vs @ [Str n]))"

text \<open>The format \<^verbatim>\<open>"0%o:%d:%d:%d:%s\n"\<close> of \<^verbatim>\<open>FileAttrs::FileAttrs(FILE*, string&)\<close>.\<close>

definition fattrs_format :: "directive list" where
  "fattrs_format =
     [Lit CHR ''0'', ConvO, Lit CHR '':'', ConvD, Lit CHR '':'', ConvD, Lit CHR '':'', ConvD,
      Lit CHR '':'', ConvS, WS]"

subsection \<open>The host\<close>

text \<open>
  What the code gets from outside itself: \<^verbatim>\<open>realpath\<close>, \<^verbatim>\<open>stat\<close> and \<^verbatim>\<open>dirname\<close>
  of the C library (\<open>None\<close> is their failure), the contents of the files that
  \<^verbatim>\<open>fopen(path, "r")\<close> can open, whether \<^verbatim>\<open>fopen(path, "w")\<close> succeeds, and the constant
  \<^verbatim>\<open>MAXNAMELEN\<close>. The constructor \<^verbatim>\<open>FileAttrs(FILE*, string&)\<close> leaves the buffer
  \<^verbatim>\<open>cname\<close> and the fields of the new object uninitialised before \<^verbatim>\<open>fscanf\<close> runs:
  \<open>uninit_cname h n\<close> and \<open>uninit_attrs h n\<close> are their indeterminate contents at
  the \<open>n\<close>-th record read from a sidecar file.\<close>

record host =
  realpath :: "string \<Rightarrow> string option"
  stat :: "string \<Rightarrow> struct_stat option"
  dirname :: "string \<Rightarrow> string"
  files :: "string \<Rightarrow> string option"
  writable :: "string \<Rightarrow> bool"
  MAXNAMELEN :: nat
  uninit_cname :: "nat \<Rightarrow> string"
  uninit_attrs :: "nat \<Rightarrow> FileAttrs"

definition canonicalize :: "host \<Rightarrow> string \<Rightarrow> string" where
  "canonicalize h p = (case realpath h p of Some rpath \<Rightarrow> rpath | None \<Rightarrow> p)"

subsection \<open>Reading one record\<close>

text \<open>
  \<^verbatim>\<open>FileAttrs::FileAttrs(FILE* fin, string& name)\<close>. \<open>this\<close> and \<open>cname\<close> are the
  uninitialised contents; \<^verbatim>\<open>fscanf\<close> stores each converted value through the pointer of
  its position, and \<open>name\<close> is assigned from \<open>cname\<close> whenever the call returns non-zero,
  \<^verbatim>\<open>EOF\<close> included. The result is the object, the name and the rest of the input.
  \<open>None\<close> is undefined behaviour: \<^verbatim>\<open>%s\<close> has no field width, and a name of
  \<open>maxlen\<close> characters or more overruns \<open>cname\<close>.\<close>

definition FileAttrs_FILE ::
  "nat \<Rightarrow> FileAttrs \<Rightarrow> string \<Rightarrow> string \<Rightarrow> string \<Rightarrow> (FileAttrs \<times> string \<times> string) option" where
  "FileAttrs_FILE maxlen this cname name fin =
     (case vfscanf fattrs_format fin [] of
        (r, vs, rest) \<Rightarrow>
          (let this1 = (case vs of Num w # _ \<Rightarrow> this\<lparr>mode := w\<rparr> | _ \<Rightarrow> this);
               this2 = (case drop 1 vs of Num w # _ \<Rightarrow> this1\<lparr>uid := w\<rparr> | _ \<Rightarrow> this1);
               this3 = (case drop 2 vs of Num w # _ \<Rightarrow> this2\<lparr>gid := w\<rparr> | _ \<Rightarrow> this2);
               this4 = (case drop 3 vs of Num w # _ \<Rightarrow> this3\<lparr>reserved := w\<rparr> | _ \<Rightarrow> this3)
           in case drop 4 vs of
                Str n # _ \<Rightarrow>
                  if maxlen \<le> length n then None
                  else Some (this4, if r \<noteq> 0 then n else name, rest)
              | _ \<Rightarrow> Some (this4, if r \<noteq> 0 then cname else name, rest)))"

subsection \<open>FileAttrDB\<close>

text \<open>
  \<^verbatim>\<open>std::map<std::string, FileAttrs*>\<close> is a list of pairs in ascending key order (the
  order in which \<^verbatim>\<open>FileAttrDB::Write\<close> iterates); a null pointer is the value \<open>None\<close>.
  \<open>map_of m k\<close> is \<^verbatim>\<open>m.find(k)\<close>, \<open>map_assign k v m\<close> is \<^verbatim>\<open>m[k] = v\<close>,
  \<open>map_erase k m\<close> is \<^verbatim>\<open>m.erase(k)\<close> and \<open>length m\<close> is \<^verbatim>\<open>m.size()\<close>.\<close>

fun map_assign :: "string \<Rightarrow> 'v \<Rightarrow> (string \<times> 'v) list \<Rightarrow> (string \<times> 'v) list" where
  "map_assign k v [] = [(k, v)]"
| "map_assign k v ((k', v') # m) =
     (if k = k' then (k, v) # m
      else if k < k' then (k, v) # (k', v') # m
      else (k', v') # map_assign k v m)"

definition map_erase :: "string \<Rightarrow> (string \<times> 'v) list \<Rightarrow> (string \<times> 'v) list" where
  "map_erase k m = filter (\<lambda>e. fst e \<noteq> k) m"

record FileAttrDB =
  path :: string
  attrs :: "(string \<times> FileAttrs option) list"

definition FILE_TABLE_NAME :: string where
  "FILE_TABLE_NAME = ''.nfsd_fattrs''"

text \<open>
  The loop of the constructor \<^verbatim>\<open>FileAttrDB::FileAttrDB\<close>: it reads records until one
  leaves the name empty. The loop has no other exit, so it is a partial function: \<open>None\<close>
  is a run that never returns (or the overrun above).\<close>

partial_function (option) load_loop ::
  "host \<Rightarrow> nat \<Rightarrow> string \<Rightarrow> (string \<times> FileAttrs option) list \<Rightarrow>
   (string \<times> FileAttrs option) list option" where
  "load_loop h n fin m =
     (case FileAttrs_FILE (MAXNAMELEN h) (uninit_attrs h n) (uninit_cname h n) [] fin of
        None \<Rightarrow> None
      | Some (fattrs, fname, rest) \<Rightarrow>
          if length fname = 0 then Some m
          else load_loop h (Suc n) rest (map_assign fname (Some fattrs) m))"

definition FileAttrDB_FileAttrDB :: "host \<Rightarrow> string \<Rightarrow> FileAttrDB option" where
  "FileAttrDB_FileAttrDB h directory =
     (let path = directory @ ''/'' @ FILE_TABLE_NAME
      in case files h path of
           None \<Rightarrow> Some \<lparr>path = path, attrs = []\<rparr>
         | Some fin \<Rightarrow>
             (case load_loop h 0 fin [] of
                None \<Rightarrow> None
              | Some m \<Rightarrow> Some \<lparr>path = path, attrs = m\<rparr>))"

text \<open>
  The methods return the store and, for those that call \<^verbatim>\<open>ft.Dirty(this)\<close>, whether they
  did. \<^verbatim>\<open>GetFileAttrs\<close> is \<^verbatim>\<open>attrs[filename(path)]\<close>: subscripting inserts a null
  pointer under a key that is not there.\<close>

definition FileAttrDB_GetFileAttrs :: "FileAttrDB \<Rightarrow> string \<Rightarrow> FileAttrDB \<times> FileAttrs option" where
  "FileAttrDB_GetFileAttrs db p =
     (let fname = filename p
      in case map_of (attrs db) fname of
           None \<Rightarrow> (db\<lparr>attrs := map_assign fname None (attrs db)\<rparr>, None)
         | Some v \<Rightarrow> (db, v))"

text \<open>
  \<^verbatim>\<open>SetFileAttrs\<close> calls \<^verbatim>\<open>attrs[fname]->Update(fattrs)\<close> on an entry that exists; on a
  null entry that is a null dereference, the result \<open>None\<close>.\<close>

definition FileAttrDB_SetFileAttrs ::
  "FileAttrDB \<Rightarrow> string \<Rightarrow> FileAttrs \<Rightarrow> (FileAttrDB \<times> bool) option" where
  "FileAttrDB_SetFileAttrs db p fattrs =
     (let fname = filename p
      in if ''.'' = fname \<or> ''..'' = fname then Some (db, False)
         else case map_of (attrs db) fname of
                None \<Rightarrow> Some (db\<lparr>attrs := map_assign fname (Some fattrs) (attrs db)\<rparr>, True)
              | Some None \<Rightarrow> None
              | Some (Some old) \<Rightarrow>
                  Some (db\<lparr>attrs := map_assign fname (Some (Update old fattrs)) (attrs db)\<rparr>, True))"

definition FileAttrDB_Remove :: "FileAttrDB \<Rightarrow> string \<Rightarrow> FileAttrDB \<times> bool" where
  "FileAttrDB_Remove db p =
     (let fname = filename p
      in case map_of (attrs db) fname of
           None \<Rightarrow> (db, False)
         | Some v \<Rightarrow> (db\<lparr>attrs := map_erase fname (attrs db)\<rparr>, True))"

text \<open>
  The loop of \<^verbatim>\<open>FileAttrDB::Write\<close>: an entry with a record is written, a null entry is
  erased. The result is the text written and the entries that stay.\<close>

fun write_loop ::
  "(string \<times> FileAttrs option) list \<Rightarrow> string \<times> (string \<times> FileAttrs option) list" where
  "write_loop [] = ([], [])"
| "write_loop ((name, Some fattrs) # m) =
     (case write_loop m of (out, m') \<Rightarrow> (FileAttrs_Write fattrs name @ out, (name, Some fattrs) # m'))"
| "write_loop ((name, None) # m) = write_loop m"

definition FileAttrDB_Write :: "host \<Rightarrow> FileAttrDB \<Rightarrow> host \<times> FileAttrDB" where
  "FileAttrDB_Write h db =
     (if length (attrs db) > 0 then
        (if writable h (path db) then
           (case write_loop (attrs db) of
              (out, m') \<Rightarrow> (h\<lparr>files := (files h)(path db \<mapsto> out)\<rparr>, db\<lparr>attrs := m'\<rparr>))
         else (h, db))
      else (h, db))"

subsection \<open>FileTable\<close>

text \<open>
  A \<^verbatim>\<open>FileAttrDB*\<close> is the key of its entry in \<open>path2db\<close>: the table owns one store
  per directory and never deletes one. The dirty set \<^verbatim>\<open>std::set<FileAttrDB*>\<close> is a list
  without duplicates of such keys; the stores write different files, so the order in which
  \<^verbatim>\<open>FileTable::Write\<close> visits them does not matter.\<close>

record FileTable =
  path2handle :: "string \<Rightarrow> 64 word option"
  handle2path :: "64 word \<Rightarrow> string option"
  path2db :: "string \<Rightarrow> FileAttrDB option"
  dirty :: "string list"

definition FileTable_FileTable :: FileTable where
  "FileTable_FileTable =
     \<lparr> path2handle = Map.empty, handle2path = Map.empty, path2db = Map.empty, dirty = [] \<rparr>"

text \<open>\<^verbatim>\<open>FileTable::Dirty\<close>, and the write-back of a store that a method has changed in place.\<close>

definition Dirty :: "FileTable \<Rightarrow> string \<Rightarrow> FileTable" where
  "Dirty ft db = ft\<lparr>dirty := List.insert db (dirty ft)\<rparr>"

definition put_db :: "FileTable \<Rightarrow> string \<Rightarrow> FileAttrDB \<times> bool \<Rightarrow> FileTable" where
  "put_db ft dbdir r =
     (let ft' = ft\<lparr>path2db := (path2db ft)(dbdir \<mapsto> fst r)\<rparr>
      in if snd r then Dirty ft' dbdir else ft')"

text \<open>
  \<^verbatim>\<open>FileTable::GetDB\<close> returns the table, the key of the store and the store. The
  path is cut to \<^verbatim>\<open>MAXPATHLEN - 1\<close> characters by \<^verbatim>\<open>strncpy\<close>; paths are taken to be
  shorter.\<close>

definition GetDB :: "host \<Rightarrow> FileTable \<Rightarrow> string \<Rightarrow> (FileTable \<times> string \<times> FileAttrDB) option" where
  "GetDB h ft p =
     (let path = canonicalize h p;
          dbdir = dirname h path
      in case path2db ft dbdir of
           Some result \<Rightarrow> Some (ft, dbdir, result)
         | None \<Rightarrow>
             (case FileAttrDB_FileAttrDB h dbdir of
                None \<Rightarrow> None
              | Some result \<Rightarrow> Some (ft\<lparr>path2db := (path2db ft)(dbdir \<mapsto> result)\<rparr>, dbdir, result)))"

definition FileTable_SetFileAttrs :: "host \<Rightarrow> FileTable \<Rightarrow> string \<Rightarrow> FileAttrs \<Rightarrow> FileTable option" where
  "FileTable_SetFileAttrs h ft p fstat =
     (case GetDB h ft p of
        None \<Rightarrow> None
      | Some (ft1, dbdir, db) \<Rightarrow>
          (case FileAttrDB_SetFileAttrs db p fstat of
             None \<Rightarrow> None
           | Some r \<Rightarrow> Some (put_db ft1 dbdir r)))"

definition FileTable_GetFileAttrs ::
  "host \<Rightarrow> FileTable \<Rightarrow> string \<Rightarrow> (FileTable \<times> FileAttrs option) option" where
  "FileTable_GetFileAttrs h ft p =
     (case GetDB h ft p of
        None \<Rightarrow> None
      | Some (ft1, dbdir, db) \<Rightarrow>
          (case FileAttrDB_GetFileAttrs db p of
             (db', result) \<Rightarrow> Some (put_db ft1 dbdir (db', False), result)))"

text \<open>
  \<^verbatim>\<open>FileTable::Stat\<close>. \<open>fstat\<close> is the caller's buffer as it is before the call; a
  failing \<^verbatim>\<open>stat\<close> leaves it as it is. The result is the table, the value returned and
  the buffer after the call.\<close>

definition overlay :: "FileAttrs option \<Rightarrow> struct_stat \<Rightarrow> struct_stat" where
  "overlay fattrs fstat =
     (case fattrs of
        None \<Rightarrow> fstat
      | Some a \<Rightarrow>
          fstat\<lparr> st_mode := (if Valid (mode a) then mode a OR (st_mode fstat AND S_IFMT)
                              else st_mode fstat),
                 st_uid := (if Valid (uid a) then uid a else st_uid fstat),
                 st_gid := (if Valid (gid a) then gid a else st_gid fstat) \<rparr>)"

definition FileTable_Stat ::
  "host \<Rightarrow> FileTable \<Rightarrow> string \<Rightarrow> struct_stat \<Rightarrow> (FileTable \<times> int \<times> struct_stat) option" where
  "FileTable_Stat h ft p fstat =
     (let path = canonicalize h p;
          result = (case stat h path of Some s \<Rightarrow> 0 | None \<Rightarrow> - 1);
          fstat1 = (case stat h path of Some s \<Rightarrow> s | None \<Rightarrow> fstat)
      in case FileTable_GetFileAttrs h ft path of
           None \<Rightarrow> None
         | Some (ft1, fattrs) \<Rightarrow> Some (ft1, result, overlay fattrs fstat1))"

definition GetFileHandle :: "host \<Rightarrow> FileTable \<Rightarrow> string \<Rightarrow> FileTable \<times> 64 word" where
  "GetFileHandle h ft p =
     (let path = canonicalize h p
      in case path2handle ft path of
           Some result \<Rightarrow> (ft, result)
         | None \<Rightarrow>
             (case stat h path of
                Some fstat \<Rightarrow>
                  (let result = make_file_handle fstat
                   in (ft\<lparr> path2handle := (path2handle ft)(path \<mapsto> result),
                           handle2path := (handle2path ft)(result \<mapsto> path) \<rparr>, result))
              | None \<Rightarrow> (ft, 0)))"

text \<open>\<^verbatim>\<open>GetAbsolutePath\<close>: \<open>None\<close> is the result \<^verbatim>\<open>false\<close>.\<close>

definition GetAbsolutePath :: "FileTable \<Rightarrow> 64 word \<Rightarrow> string option" where
  "GetAbsolutePath ft handle = handle2path ft handle"

text \<open>
  \<^verbatim>\<open>FileTable::Move\<close>. \<open>fstat\<close> is the uninitialised local that is passed to
  \<^verbatim>\<open>Stat\<close>.\<close>

definition Move :: "host \<Rightarrow> FileTable \<Rightarrow> string \<Rightarrow> string \<Rightarrow> struct_stat \<Rightarrow> FileTable option" where
  "Move h ft pFrom pTo fstat =
     (let pathFrom = canonicalize h pFrom;
          pathTo = canonicalize h pTo
      in case path2handle ft pathFrom of
           None \<Rightarrow> Some ft
         | Some handle \<Rightarrow>
             (case FileTable_Stat h ft pathFrom fstat of
                None \<Rightarrow> None
              | Some (ft1, statResult, fstat1) \<Rightarrow>
                  (let ft2 = ft1\<lparr> path2handle := ((path2handle ft1)(pathFrom := None))(pathTo \<mapsto> handle),
                                  handle2path := ((handle2path ft1)(handle := None))(handle \<mapsto> pathTo) \<rparr>
                   in case (if statResult = 0
                            then FileTable_SetFileAttrs h ft2 pathTo (FileAttrs_stat fstat1)
                            else Some ft2) of
                        None \<Rightarrow> None
                      | Some ft3 \<Rightarrow>
                          (case GetDB h ft3 pathFrom of
                             None \<Rightarrow> None
                           | Some (ft4, dbdir, db) \<Rightarrow>
                               Some (put_db ft4 dbdir (FileAttrDB_Remove db pathFrom))))))"

definition Remove :: "host \<Rightarrow> FileTable \<Rightarrow> string \<Rightarrow> FileTable option" where
  "Remove h ft p =
     (let path = canonicalize h p
      in case path2handle ft path of
           None \<Rightarrow> Some ft
         | Some handle \<Rightarrow>
             (let ft1 = ft\<lparr> path2handle := (path2handle ft)(path := None),
                            handle2path := (handle2path ft)(handle := None) \<rparr>
              in case GetDB h ft1 path of
                   None \<Rightarrow> None
                 | Some (ft2, dbdir, db) \<Rightarrow> Some (put_db ft2 dbdir (FileAttrDB_Remove db path))))"

text \<open>
  \<^verbatim>\<open>FileTable::Write\<close> writes every dirty store and clears the dirty set;
  \<open>Run_cycle\<close> is one turn of the loop of \<^verbatim>\<open>FileTable::Run\<close>.\<close>

fun write_dirty ::
  "host \<Rightarrow> (string \<Rightarrow> FileAttrDB option) \<Rightarrow> string list \<Rightarrow> host \<times> (string \<Rightarrow> FileAttrDB option)" where
  "write_dirty h dbs [] = (h, dbs)"
| "write_dirty h dbs (it # its) =
     (case dbs it of
        None \<Rightarrow> write_dirty h dbs its
      | Some db \<Rightarrow>
          (case FileAttrDB_Write h db of (h', db') \<Rightarrow> write_dirty h' (dbs(it \<mapsto> db')) its))"

definition FileTable_Write :: "host \<Rightarrow> FileTable \<Rightarrow> host \<times> FileTable" where
  "FileTable_Write h ft =
     (case write_dirty h (path2db ft) (dirty ft) of
        (h', dbs) \<Rightarrow> (h', ft\<lparr>path2db := dbs, dirty := []\<rparr>))"

definition Run_cycle :: "host \<Rightarrow> FileTable \<Rightarrow> host \<times> FileTable" where
  "Run_cycle h ft = (if length (dirty ft) \<noteq> 0 then FileTable_Write h ft else (h, ft))"

section \<open>Notions used in the statements\<close>

text \<open>The line that \<^verbatim>\<open>FileAttrDB::Write\<close> emits for one entry: nothing for a null entry.\<close>

definition record_line :: "string \<times> FileAttrs option \<Rightarrow> string" where
  "record_line e = (case snd e of None \<Rightarrow> [] | Some fattrs \<Rightarrow> FileAttrs_Write fattrs (fst e))"

text \<open>
  The two maps of the registry are inverse to each other.\<close>

definition inverse_maps :: "FileTable \<Rightarrow> bool" where
  "inverse_maps ft = (\<forall>p k. (path2handle ft p = Some k) = (handle2path ft k = Some p))"

text \<open>
  Two conditions on a call, in the state in which it is made. \<open>fresh_handle\<close>: when
  \<^verbatim>\<open>GetFileHandle\<close> registers a path, the handle it derives from the device and inode
  numbers is not the key of an entry of \<open>handle2path\<close>. \<open>free_target\<close>: when
  \<^verbatim>\<open>Move\<close> re-keys a handle, the target is the source itself or has no handle.\<close>

definition fresh_handle :: "host \<Rightarrow> FileTable \<Rightarrow> string \<Rightarrow> bool" where
  "fresh_handle h ft p =
     (case path2handle ft (canonicalize h p) of
        Some k \<Rightarrow> True
      | None \<Rightarrow>
          (case stat h (canonicalize h p) of
             None \<Rightarrow> True
           | Some fstat \<Rightarrow> handle2path ft (make_file_handle fstat) = None))"

definition free_target :: "host \<Rightarrow> FileTable \<Rightarrow> string \<Rightarrow> string \<Rightarrow> bool" where
  "free_target h ft pFrom pTo =
     (path2handle ft (canonicalize h pFrom) = None \<or>
      canonicalize h pTo = canonicalize h pFrom \<or>
      path2handle ft (canonicalize h pTo) = None)"

text \<open>
  The tables that the operations produce from the empty table when every call of
  \<^verbatim>\<open>GetFileHandle\<close> and \<^verbatim>\<open>Move\<close> meets its condition; each call has a host of its
  own.\<close>

inductive guarded_run :: "FileTable \<Rightarrow> bool" where
  run_start: "guarded_run FileTable_FileTable"
| run_get_handle: "guarded_run ft \<Longrightarrow> fresh_handle h ft p \<Longrightarrow> guarded_run (fst (GetFileHandle h ft p))"
| run_move: "guarded_run ft \<Longrightarrow> free_target h ft pFrom pTo \<Longrightarrow> Move h ft pFrom pTo fstat = Some ft' \<Longrightarrow>
         guarded_run ft'"
| run_remove: "guarded_run ft \<Longrightarrow> Remove h ft p = Some ft' \<Longrightarrow> guarded_run ft'"
| run_stat: "guarded_run ft \<Longrightarrow> FileTable_Stat h ft p fstat = Some (ft', r, fstat') \<Longrightarrow> guarded_run ft'"
| run_set_attrs: "guarded_run ft \<Longrightarrow> FileTable_SetFileAttrs h ft p a = Some ft' \<Longrightarrow> guarded_run ft'"
| run_get_attrs: "guarded_run ft \<Longrightarrow> FileTable_GetFileAttrs h ft p = Some (ft', r) \<Longrightarrow> guarded_run ft'"
| run_write: "guarded_run ft \<Longrightarrow> Run_cycle h ft = (h', ft') \<Longrightarrow> guarded_run ft'"

text \<open>
  \<open>kept_run q ft ft'\<close>: the table \<open>ft'\<close> is reached from \<open>ft\<close> by calls that meet
  the two conditions, none of which is a \<^verbatim>\<open>Remove\<close> of a path whose canonical form is
  \<open>q\<close> or a \<^verbatim>\<open>Move\<close> from such a path.\<close>

inductive kept_run :: "string \<Rightarrow> FileTable \<Rightarrow> FileTable \<Rightarrow> bool" for q :: string and ft :: FileTable where
  kept_start: "kept_run q ft ft"
| kept_get_handle: "kept_run q ft ft1 \<Longrightarrow> fresh_handle h ft1 p \<Longrightarrow> kept_run q ft (fst (GetFileHandle h ft1 p))"
| kept_move: "kept_run q ft ft1 \<Longrightarrow> free_target h ft1 pFrom pTo \<Longrightarrow> canonicalize h pFrom \<noteq> q \<Longrightarrow>
         Move h ft1 pFrom pTo fstat = Some ft2 \<Longrightarrow> kept_run q ft ft2"
| kept_remove: "kept_run q ft ft1 \<Longrightarrow> canonicalize h p \<noteq> q \<Longrightarrow> Remove h ft1 p = Some ft2 \<Longrightarrow> kept_run q ft ft2"
| kept_stat: "kept_run q ft ft1 \<Longrightarrow> FileTable_Stat h ft1 p fstat = Some (ft2, r, fstat') \<Longrightarrow> kept_run q ft ft2"
| kept_set_attrs: "kept_run q ft ft1 \<Longrightarrow> FileTable_SetFileAttrs h ft1 p a = Some ft2 \<Longrightarrow> kept_run q ft ft2"
| kept_get_attrs: "kept_run q ft ft1 \<Longrightarrow> FileTable_GetFileAttrs h ft1 p = Some (ft2, r) \<Longrightarrow> kept_run q ft ft2"
| kept_write: "kept_run q ft ft1 \<Longrightarrow> Run_cycle h ft1 = (h', ft2) \<Longrightarrow> kept_run q ft ft2"

text \<open>
  The tables that the operations produce from the empty table, with no condition on the
  calls.\<close>

inductive table_run :: "FileTable \<Rightarrow> bool" where
  table_start: "table_run FileTable_FileTable"
| table_get_handle: "table_run ft \<Longrightarrow> table_run (fst (GetFileHandle h ft p))"
| table_move: "table_run ft \<Longrightarrow> Move h ft pFrom pTo fstat = Some ft' \<Longrightarrow> table_run ft'"
| table_remove: "table_run ft \<Longrightarrow> Remove h ft p = Some ft' \<Longrightarrow> table_run ft'"
| table_stat: "table_run ft \<Longrightarrow> FileTable_Stat h ft p fstat = Some (ft', r, fstat') \<Longrightarrow> table_run ft'"
| table_set_attrs: "table_run ft \<Longrightarrow> FileTable_SetFileAttrs h ft p a = Some ft' \<Longrightarrow> table_run ft'"
| table_get_attrs: "table_run ft \<Longrightarrow> FileTable_GetFileAttrs h ft p = Some (ft', r) \<Longrightarrow> table_run ft'"
| table_write: "table_run ft \<Longrightarrow> Run_cycle h ft = (h', ft') \<Longrightarrow> table_run ft'"

text \<open>
  What every such table has: the dirty set has no duplicates (it is a
  \<^verbatim>\<open>std::set\<close>), and the store of a directory has the path of the sidecar file of that
  directory (the constructor sets it and no method changes it).\<close>

definition wf_table :: "FileTable \<Rightarrow> bool" where
  "wf_table ft =
     (distinct (dirty ft) \<and> (\<forall>d db. path2db ft d = Some db \<longrightarrow> path db = d @ ''/'' @ FILE_TABLE_NAME))"

text \<open>
  For reading a line of the sidecar file. A name can be stored when it is not empty, has
  no white space and fits the buffer \<^verbatim>\<open>cname\<close>. The line of a record holds its mode,
  uid, gid and reserved; \<open>persisted this a\<close> is the object that the constructor leaves
  when it reads the line of \<open>a\<close> into the uninitialised object \<open>this\<close>.\<close>

definition storable :: "nat \<Rightarrow> string \<Rightarrow> bool" where
  "storable maxlen name = (name \<noteq> [] \<and> (\<forall>c \<in> set name. \<not> is_space c) \<and> length name < maxlen)"

definition persisted :: "FileAttrs \<Rightarrow> FileAttrs \<Rightarrow> FileAttrs" where
  "persisted this a = this\<lparr>mode := mode a, uid := uid a, gid := gid a, reserved := reserved a\<rparr>"

section \<open>Example hosts and tables\<close>

text \<open>
  A regular file (mode 0100644, owner 501, device 1, inode 42), the overlay record of the
  specification (mode 0755, no owner override), a record whose mode carries the directory
  bit (040755). \<open>plain_host st\<close> is a host without symbolic links and without
  sidecar files whose \<^verbatim>\<open>stat\<close> is \<open>st\<close>: \<^verbatim>\<open>realpath\<close> returns a path that exists as
  it is and fails on one that does not, so a path is its own canonical form; every file
  can be opened for writing, and the uninitialised name buffer reads as empty.
  \<open>ex_host\<close> has the single file /d/x, \<open>ex_host_gone\<close> has no file.\<close>

definition ex_stat :: struct_stat where
  "ex_stat = \<lparr> st_dev = 1, st_ino = 42, st_mode = 0x81A4, st_uid = 501, st_gid = 20, st_size = 5,
     st_atimespec_sec = 0, st_atimespec_nsec = 0, st_mtimespec_sec = 0, st_mtimespec_nsec = 0 \<rparr>"

definition ex_attrs :: FileAttrs where
  "ex_attrs = \<lparr> mode = 0x1ED, uid = 0xFFFFFFFF, gid = 7, size_attr = 5, atime_sec = 0, atime_nsec = 0,
     mtime_sec = 0, mtime_nsec = 0, reserved = 0 \<rparr>"

definition ex_dir_attrs :: FileAttrs where
  "ex_dir_attrs = ex_attrs\<lparr>mode := 0x41ED\<rparr>"

definition ex_dirname :: "string \<Rightarrow> string" where
  "ex_dirname p =
     (let d = rev (drop 1 (dropWhile (\<lambda>c. c \<noteq> CHR ''/'') (rev p))) in if d = [] then ''/'' else d)"

definition plain_host :: "(string \<Rightarrow> struct_stat option) \<Rightarrow> host" where
  "plain_host st =
     \<lparr> realpath = (\<lambda>p. case st p of None \<Rightarrow> None | Some s \<Rightarrow> Some p), stat = st,
       dirname = ex_dirname, files = Map.empty, writable = (\<lambda>p. True), MAXNAMELEN = 256,
       uninit_cname = (\<lambda>n. []), uninit_attrs = (\<lambda>n. ex_attrs) \<rparr>"

definition ex_host :: host where
  "ex_host = plain_host (\<lambda>p. if p = ''/d/x'' then Some ex_stat else None)"

definition ex_host_gone :: host where
  "ex_host_gone = plain_host (\<lambda>p. None)"

definition ex_host_ro :: host where
  "ex_host_ro = ex_host\<lparr>writable := (\<lambda>p. False)\<rparr>"

definition ex_db :: FileAttrDB where
  "ex_db = \<lparr>path = ''/d/.nfsd_fattrs'', attrs = [(''a'', Some ex_attrs)]\<rparr>"

definition ex_table :: FileTable where
  "ex_table = \<lparr> path2handle = Map.empty, handle2path = Map.empty, path2db = [''/d'' \<mapsto> ex_db], dirty = [] \<rparr>"

definition ex_table_dirty :: FileTable where
  "ex_table_dirty = ex_table\<lparr>dirty := [''/d'']\<rparr>"

definition ex_table_x :: FileTable where
  "ex_table_x = \<lparr> path2handle = Map.empty, handle2path = Map.empty,
      path2db = [''/d'' \<mapsto> \<lparr>path = ''/d/.nfsd_fattrs'', attrs = [(''x'', Some ex_dir_attrs)]\<rparr>],
      dirty = [''/d''] \<rparr>"

definition ex_table_null :: FileTable where
  "ex_table_null = \<lparr> path2handle = Map.empty, handle2path = Map.empty,
      path2db = [''/d'' \<mapsto> \<lparr>path = ''/d/.nfsd_fattrs'', attrs = [(''x'', None)]\<rparr>], dirty = [] \<rparr>"

definition ex_handle :: "64 word" where
  "ex_handle = 0x10000002A"

definition ex_table_reg :: FileTable where
  "ex_table_reg = \<lparr> path2handle = [''/d/x'' \<mapsto> ex_handle], handle2path = [ex_handle \<mapsto> ''/d/x''],
      path2db = [''/d'' \<mapsto> \<lparr>path = ''/d/.nfsd_fattrs'', attrs = [(''x'', Some ex_attrs)]\<rparr>],
      dirty = [] \<rparr>"

text \<open>A host on which /d/link is a symbolic link to /d/target, and the tables of a run on it.\<close>

definition ex_host_link :: host where
  "ex_host_link =
     (plain_host (\<lambda>p. if p = ''/d/link'' \<or> p = ''/d/target'' then Some ex_stat else None))\<lparr>
        realpath := (\<lambda>p. if p = ''/d/link'' \<or> p = ''/d/target'' then Some ''/d/target'' else None) \<rparr>"

definition ex_link_1 :: FileTable where
  "ex_link_1 = \<lparr> path2handle = [''/d/target'' \<mapsto> ex_handle], handle2path = [ex_handle \<mapsto> ''/d/target''],
      path2db = Map.empty, dirty = [] \<rparr>"

definition ex_link_2 :: FileTable where
  "ex_link_2 = ex_link_1\<lparr>
      path2db := [''/d'' \<mapsto> \<lparr>path = ''/d/.nfsd_fattrs'', attrs = [(''link'', Some ex_attrs)]\<rparr>],
      dirty := [''/d''] \<rparr>"

definition ex_link_3 :: FileTable where
  "ex_link_3 = ex_link_2\<lparr> path2handle := Map.empty, handle2path := Map.empty \<rparr>"

text \<open>
  A host with the files /d/a and /d/x (different inodes), and one on which /d/a and /d/b
  are hard links to one file.\<close>

definition ex_stat_a :: struct_stat where
  "ex_stat_a = ex_stat\<lparr>st_ino := 7\<rparr>"

definition ex_handle_a :: "64 word" where
  "ex_handle_a = 0x100000007"

definition ex_host_ax :: host where
  "ex_host_ax =
     plain_host (\<lambda>p. if p = ''/d/x'' then Some ex_stat else if p = ''/d/a'' then Some ex_stat_a else None)"

definition ex_host_hard :: host where
  "ex_host_hard = plain_host (\<lambda>p. if p = ''/d/a'' \<or> p = ''/d/b'' then Some ex_stat else None)"

definition ex_ax_2 :: FileTable where
  "ex_ax_2 = \<lparr> path2handle = [''/d/a'' \<mapsto> ex_handle_a, ''/d/x'' \<mapsto> ex_handle],
      handle2path = [ex_handle_a \<mapsto> ''/d/a'', ex_handle \<mapsto> ''/d/x''],
      path2db = Map.empty, dirty = [] \<rparr>"

definition ex_ax_3 :: FileTable where
  "ex_ax_3 = \<lparr> path2handle = [''/d/a'' \<mapsto> ex_handle],
      handle2path = [ex_handle_a \<mapsto> ''/d/a'', ex_handle \<mapsto> ''/d/a''],
      path2db = [''/d'' \<mapsto> \<lparr>path = ''/d/.nfsd_fattrs'', attrs = [(''a'', Some (FileAttrs_stat ex_stat))]\<rparr>],
      dirty = [''/d''] \<rparr>"

definition ex_hard_2 :: FileTable where
  "ex_hard_2 = \<lparr> path2handle = [''/d/a'' \<mapsto> ex_handle, ''/d/b'' \<mapsto> ex_handle],
      handle2path = [ex_handle \<mapsto> ''/d/b''], path2db = Map.empty, dirty = [] \<rparr>"

definition ex_hard_3 :: FileTable where
  "ex_hard_3 = ex_hard_2\<lparr>
      path2db := [''/d'' \<mapsto> \<lparr>path = ''/d/.nfsd_fattrs'', attrs = [(''a'', Some ex_attrs)]\<rparr>],
      dirty := [''/d''] \<rparr>"

definition ex_hard_4 :: FileTable where
  "ex_hard_4 = \<lparr> path2handle = [''/d/b'' \<mapsto> ex_handle], handle2path = Map.empty,
      path2db = [''/d'' \<mapsto> \<lparr>path = ''/d/.nfsd_fattrs'', attrs = []\<rparr>], dirty = [''/d''] \<rparr>"

text \<open>
  The tables of a run on the host with /d/a and /d/x: after \<^verbatim>\<open>GetFileHandle("/d/a")\<close>,
  and after \<^verbatim>\<open>GetFileHandle("/d/x")\<close> and \<^verbatim>\<open>Move("/d/x", "/d/y")\<close>.\<close>

definition ex_ax_1 :: FileTable where
  "ex_ax_1 = \<lparr> path2handle = [''/d/a'' \<mapsto> ex_handle_a], handle2path = [ex_handle_a \<mapsto> ''/d/a''],
      path2db = Map.empty, dirty = [] \<rparr>"

definition ex_ax_y :: FileTable where
  "ex_ax_y = \<lparr> path2handle = [''/d/a'' \<mapsto> ex_handle_a, ''/d/y'' \<mapsto> ex_handle],
      handle2path = [ex_handle_a \<mapsto> ''/d/a'', ex_handle \<mapsto> ''/d/y''],
      path2db = [''/d'' \<mapsto> \<lparr>path = ''/d/.nfsd_fattrs'', attrs = [(''y'', Some (FileAttrs_stat ex_stat))]\<rparr>],
      dirty = [''/d''] \<rparr>"

text \<open>
  The store of the specification's example for the round trip (a.txt with mode 0600, b.txt
  with mode 0644), and a store with an entry whose name has a space.\<close>

definition ex_db_ab :: FileAttrDB where
  "ex_db_ab = \<lparr>path = ''/d/.nfsd_fattrs'',
      attrs = [(''a.txt'', Some (ex_attrs\<lparr>mode := 0x180\<rparr>)), (''b.txt'', Some (ex_attrs\<lparr>mode := 0x1A4\<rparr>))]\<rparr>"

definition ex_db_space :: FileAttrDB where
  "ex_db_space = \<lparr>path = ''/d/.nfsd_fattrs'', attrs = [(''my file'', Some ex_attrs)]\<rparr>"

text \<open>
  The calls of the constructor \<^verbatim>\<open>FileAttrs(FILE*, string&)\<close> in the loop of the loader
  have the buffer \<^verbatim>\<open>cname\<close> in the same place, so a call finds in it what the call
  before left there. \<open>ex_host_stale\<close> is such a host for a file with the records of
  a.txt and b.txt: the buffer holds a.txt at the second call and b.txt from the third on.
  \<open>ex_host_sidecar\<close> is such a host with no file but the sidecar file of /d, which has
  the record of a.\<close>

definition ex_host_stale :: host where
  "ex_host_stale =
     ex_host\<lparr>uninit_cname := (\<lambda>n. if n = 0 then [] else if n = 1 then ''a.txt'' else ''b.txt'')\<rparr>"

definition ex_host_sidecar :: host where
  "ex_host_sidecar =
     ex_host_gone\<lparr>files := [''/d/.nfsd_fattrs'' \<mapsto> FileAttrs_Write ex_attrs ''a''],
                  uninit_cname := (\<lambda>n. if n = 0 then [] else ''a'')\<rparr>"

text \<open>The table \<open>ex_table\<close> after a lookup of /d/z.\<close>

definition ex_table_z :: FileTable where
  "ex_table_z = ex_table\<lparr>path2db := [''/d'' \<mapsto> \<lparr>path = ''/d/.nfsd_fattrs'', attrs = [(''a'', Some ex_attrs), (''z'', None)]\<rparr>]\<rparr>"

text \<open>
  A host on which the sidecar file of /e cannot be opened for writing, and the tables of a
  run on it: after \<^verbatim>\<open>SetFileAttrs("/d/a")\<close> (the table \<open>ex_table_dirty\<close>) and
  \<^verbatim>\<open>GetFileAttrs("/d/z")\<close>, after \<^verbatim>\<open>GetFileAttrs("/f/q")\<close>, and after
  \<^verbatim>\<open>SetFileAttrs("/e/b")\<close>: the stores of /d and /e are dirty, the store of /f is not.\<close>

definition ex_host_de :: host where
  "ex_host_de = ex_host\<lparr>writable := (\<lambda>p. p \<noteq> ''/e/.nfsd_fattrs'')\<rparr>"

definition ex_table_d2 :: FileTable where
  "ex_table_d2 = ex_table_z\<lparr>dirty := [''/d'']\<rparr>"

definition ex_table_d3 :: FileTable where
  "ex_table_d3 = \<lparr> path2handle = Map.empty, handle2path = Map.empty,
      path2db = [''/d'' \<mapsto> \<lparr>path = ''/d/.nfsd_fattrs'', attrs = [(''a'', Some ex_attrs), (''z'', None)]\<rparr>,
                 ''/f'' \<mapsto> \<lparr>path = ''/f/.nfsd_fattrs'', attrs = [(''q'', None)]\<rparr>],
      dirty = [''/d''] \<rparr>"

definition ex_table_de :: FileTable where
  "ex_table_de = \<lparr> path2handle = Map.empty, handle2path = Map.empty,
      path2db = [''/d'' \<mapsto> \<lparr>path = ''/d/.nfsd_fattrs'', attrs = [(''a'', Some ex_attrs), (''z'', None)]\<rparr>,
                 ''/f'' \<mapsto> \<lparr>path = ''/f/.nfsd_fattrs'', attrs = [(''q'', None)]\<rparr>,
                 ''/e'' \<mapsto> \<lparr>path = ''/e/.nfsd_fattrs'', attrs = [(''b'', Some ex_attrs)]\<rparr>],
      dirty = [''/e'', ''/d''] \<rparr>"

text \<open>The tables of a run on \<open>ex_host\<close> that leaves a store with null entries only.\<close>

definition ex_null_1 :: FileTable where
  "ex_null_1 = \<lparr> path2handle = [''/d/x'' \<mapsto> ex_handle], handle2path = [ex_handle \<mapsto> ''/d/x''],
      path2db = Map.empty, dirty = [] \<rparr>"

definition ex_null_2 :: FileTable where
  "ex_null_2 = ex_null_1\<lparr>path2db := [''/d'' \<mapsto> \<lparr>path = ''/d/.nfsd_fattrs'', attrs = [(''x'', None)]\<rparr>]\<rparr>"

definition ex_null_3 :: FileTable where
  "ex_null_3 = ex_null_1\<lparr>path2db := [''/d'' \<mapsto> \<lparr>path = ''/d/.nfsd_fattrs'', attrs = [(''x'', None), (''z'', None)]\<rparr>]\<rparr>"

definition ex_null_4 :: FileTable where
  "ex_null_4 = \<lparr> path2handle = Map.empty, handle2path = Map.empty,
      path2db = [''/d'' \<mapsto> \<lparr>path = ''/d/.nfsd_fattrs'', attrs = [(''z'', None)]\<rparr>], dirty = [''/d''] \<rparr>"

definition ex_null_5 :: FileTable where
  "ex_null_5 = \<lparr> path2handle = Map.empty, handle2path = Map.empty,
      path2db = [''/d'' \<mapsto> \<lparr>path = ''/d/.nfsd_fattrs'', attrs = []\<rparr>], dirty = [] \<rparr>"

section \<open>Auxiliary facts\<close>

lemmas ex_defs = ex_stat_def ex_attrs_def ex_dir_attrs_def ex_dirname_def ex_host_def plain_host_def ex_host_gone_def
  ex_host_ro_def ex_db_def ex_table_def ex_table_dirty_def ex_table_x_def

lemmas ex_defs2 = ex_handle_def ex_table_reg_def ex_host_link_def ex_link_1_def ex_link_2_def ex_link_3_def

lemmas ex_defs3 = ex_stat_a_def ex_handle_a_def ex_host_ax_def ex_host_hard_def ex_ax_2_def ex_ax_3_def
  ex_hard_2_def

lemmas ex_null_defs = ex_null_1_def ex_null_2_def ex_null_3_def ex_null_4_def ex_null_5_def

lemmas op_defs = canonicalize_def GetDB_def FileAttrDB_FileAttrDB_def FILE_TABLE_NAME_def
  FileTable_GetFileAttrs_def FileAttrDB_GetFileAttrs_def FileTable_SetFileAttrs_def
  FileAttrDB_SetFileAttrs_def FileAttrDB_Remove_def put_db_def Dirty_def filename_def
  FileTable_Stat_def overlay_def Valid_def Let_def FileTable_FileTable_def

lemma ex_handles:
  "make_file_handle ex_stat = ex_handle" "make_file_handle ex_stat_a = ex_handle_a"
  by (simp_all add: make_file_handle_def rotl_def ex_stat_def ex_stat_a_def ex_handle_def ex_handle_a_def Let_def)

subsection \<open>The map of a store\<close>

lemma map_of_map_assign: "map_of (map_assign k v m) = (map_of m)(k \<mapsto> v)"
  by (induction m) (auto simp: fun_eq_iff)

lemma map_of_map_erase: "map_of (map_erase k m) = (map_of m)(k := None)"
  by (induction m) (auto simp: map_erase_def fun_eq_iff)

lemma length_map_assign: "map_of m k = None \<Longrightarrow> length (map_assign k v m) = Suc (length m)"
  by (induction m) (auto split: if_splits)

lemma map_of_filter_None: "map_of m k = None \<Longrightarrow> map_of (filter P m) k = None"
  by (induction m) (auto split: if_splits)

lemma map_of_filter_null_assign:
  "map_of m k = None \<Longrightarrow> map_of (filter (\<lambda>e. snd e \<noteq> None) (map_assign k None m)) k = None"
  by (induction m) (auto simp: map_of_filter_None split: if_splits)

lemma write_loop_eq: "write_loop m = (concat (map record_line m), filter (\<lambda>e. snd e \<noteq> None) m)"
  by (induction m rule: write_loop.induct) (auto simp: record_line_def)

text \<open>The operations keep the keys in ascending order.\<close>

lemma set_map_assign: "set (map fst (map_assign k v m)) = insert k (set (map fst m))"
proof (induction m)
  case Nil
  show ?case by simp
next
  case (Cons e m)
  obtain k' v' where e: "e = (k', v')" by (cases e)
  show ?case
    using Cons.IH by (cases "k = k'"; cases "k < k'") (simp_all add: e insert_commute)
qed

lemma map_assign_sorted:
  "sorted_wrt (<) (map fst m) \<Longrightarrow> sorted_wrt (<) (map fst (map_assign k v m))"
proof (induction m)
  case Nil
  show ?case by simp
next
  case (Cons e m)
  obtain k' v' where e: "e = (k', v')" by (cases e)
  from Cons.prems have rest: "sorted_wrt (<) (map fst m)" and low: "\<forall>x \<in> set (map fst m). k' < x"
    by (auto simp: e)
  show ?case
  proof (cases "k = k'")
    case True
    with Cons.prems show ?thesis by (simp add: e)
  next
    case False
    show ?thesis
    proof (cases "k < k'")
      case True
      with Cons.prems False show ?thesis by (auto simp: e)
    next
      case nless: False
      with False have "k' < k" by simp
      with low have "\<forall>x \<in> set (map fst (map_assign k v m)). k' < x"
        unfolding set_map_assign by simp
      with Cons.IH [OF rest] False nless show ?thesis by (simp add: e)
    qed
  qed
qed

lemma map_erase_sorted:
  "sorted_wrt (<) (map fst m) \<Longrightarrow> sorted_wrt (<) (map fst (map_erase k m))"
  by (induction m) (auto simp: map_erase_def)

subsection \<open>Printing and scanning numbers\<close>

lemma of_char_digit_char: "d < 10 \<Longrightarrow> (of_char (digit_char d) :: nat) = 48 + d"
  by (simp add: digit_char_def)

lemma digit_val_digit_char: "d < 10 \<Longrightarrow> digit_val (digit_char d) = d"
  by (simp add: digit_val_def of_char_digit_char)

lemma is_digit_digit_char: "d < b \<Longrightarrow> b \<le> 10 \<Longrightarrow> is_digit b (digit_char d)"
  by (simp add: is_digit_def of_char_digit_char)

lemma digits_ne: "digits b n \<noteq> []"
  by (subst digits.simps) simp

lemma digits_all_digits:
  "2 \<le> b \<Longrightarrow> b \<le> 10 \<Longrightarrow> c \<in> set (digits b n) \<Longrightarrow> is_digit b c"
proof (induction b n rule: digits.induct)
  case (1 b n)
  show ?case
  proof (cases "n < b")
    case True
    with 1 show ?thesis by (subst (asm) (2) digits.simps) (auto simp: is_digit_digit_char)
  next
    case False
    with 1 have "c \<in> set (digits b (n div b)) \<or> c = digit_char (n mod b)"
      by (subst (asm) (2) digits.simps) auto
    then show ?thesis using 1 False by (auto simp: is_digit_digit_char)
  qed
qed

lemma digits_value_snoc: "digits_value b (ds @ [c]) = digits_value b ds * b + digit_val c"
  by (simp add: digits_value_def)

lemma digits_value_digits: "2 \<le> b \<Longrightarrow> b \<le> 10 \<Longrightarrow> digits_value b (digits b n) = n"
proof (induction b n rule: digits.induct)
  case (1 b n)
  show ?case
  proof (cases "n < b")
    case True
    with 1 show ?thesis
      by (subst digits.simps) (simp add: digits_value_def digit_val_digit_char)
  next
    case False
    with 1 have ih: "digits_value b (digits b (n div b)) = n div b" by simp
    have "n mod b < b" using 1(2) by simp
    then have "n mod b < 10" using 1(3) by linarith
    then show ?thesis using False 1(2) ih
      by (subst digits.simps) (simp add: digits_value_snoc digit_val_digit_char)
  qed
qed

lemma is_digit_plain:
  "is_digit b c \<Longrightarrow> \<not> is_space c \<and> c \<noteq> CHR ''-'' \<and> c \<noteq> CHR ''+''"
  by (auto simp: is_digit_def is_space_def)

lemma colon_not_digit: "b \<le> 10 \<Longrightarrow> \<not> is_digit b CHR '':''"
  by (simp add: is_digit_def)

lemma scan_int_digits:
  assumes "2 \<le> b" and "b \<le> 10" and "\<not> is_digit b c"
  shows "scan_int b (digits b n @ c # r) = Item (of_nat n) (c # r)"
proof -
  obtain d ds where d: "digits b n = d # ds"
    using digits_ne [of b n] by (cases "digits b n") auto
  have all: "\<And>x. x \<in> set (digits b n) \<Longrightarrow> is_digit b x"
    using assms(1,2) by (rule digits_all_digits)
  have dd: "is_digit b d" using all d by simp
  note plain = is_digit_plain [OF dd]
  have tw: "takeWhile (is_digit b) (digits b n @ c # r) = digits b n"
    using all assms(3) by (simp add: takeWhile_append2)
  have dw: "dropWhile (is_digit b) (digits b n @ c # r) = c # r"
    using all assms(3) by (simp add: dropWhile_append2)
  have v: "digits_value b (digits b n) = n"
    using assms(1,2) by (rule digits_value_digits)
  have "scan_int b (d # ds @ c # r) = Item (of_nat n) (c # r)"
    using plain tw dw v unfolding d by (simp add: scan_int_def Let_def)
  then show ?thesis
    unfolding d by simp
qed

lemma scan_int_minus_digits:
  assumes "2 \<le> b" and "b \<le> 10" and "\<not> is_digit b c"
  shows "scan_int b (CHR ''-'' # digits b n @ c # r) = Item (- of_nat n) (c # r)"
proof -
  have all: "\<And>x. x \<in> set (digits b n) \<Longrightarrow> is_digit b x"
    using assms(1,2) by (rule digits_all_digits)
  have tw: "takeWhile (is_digit b) (digits b n @ c # r) = digits b n"
    using all assms(3) by (simp add: takeWhile_append2)
  have dw: "dropWhile (is_digit b) (digits b n @ c # r) = c # r"
    using all assms(3) by (simp add: dropWhile_append2)
  have ns: "\<not> is_space CHR ''-''" by (simp add: is_space_def)
  show ?thesis
    using tw dw ns digits_ne [of b n] assms(1,2)
    by (simp add: scan_int_def Let_def digits_value_digits)
qed

lemma scan_printf_o: "scan_int 8 (printf_o w @ CHR '':'' # r) = Item w (CHR '':'' # r)"
  by (simp add: printf_o_def scan_int_digits colon_not_digit)

lemma scan_printf_d: "scan_int 10 (printf_d w @ CHR '':'' # r) = Item w (CHR '':'' # r)"
proof (cases "sint w < 0")
  case True
  have "- of_nat (nat (- sint w)) = (word_of_int (sint w) :: 32 word)"
    using True by simp
  then show ?thesis
    using True by (simp add: printf_d_def scan_int_minus_digits colon_not_digit)
next
  case False
  have "of_nat (nat (sint w)) = (word_of_int (sint w) :: 32 word)"
    using False by simp
  then show ?thesis
    using False by (simp add: printf_d_def scan_int_digits colon_not_digit)
qed

subsection \<open>Reading the lines of a store\<close>

lemma scan_str_name:
  assumes "name \<noteq> []" and "\<forall>c \<in> set name. \<not> is_space c"
  shows "scan_str (name @ CHR 0x0A # r) = Item name (CHR 0x0A # r)"
proof -
  obtain c cs where n: "name = c # cs" using assms(1) by (cases name) auto
  have nl: "is_space (CHR 0x0A)" by (simp add: is_space_def)
  have tw: "takeWhile (\<lambda>x. \<not> is_space x) (name @ CHR 0x0A # r) = name"
    using assms(2) nl by (simp add: takeWhile_append2)
  have dw: "dropWhile (\<lambda>x. \<not> is_space x) (name @ CHR 0x0A # r) = CHR 0x0A # r"
    using assms(2) nl by (simp add: dropWhile_append2)
  have "\<not> is_space c" using assms(2) n by simp
  then have "scan_str (c # cs @ CHR 0x0A # r) = Item (takeWhile (\<lambda>x. \<not> is_space x) (name @ CHR 0x0A # r))
      (dropWhile (\<lambda>x. \<not> is_space x) (name @ CHR 0x0A # r))"
    unfolding n by (simp add: scan_str_def)
  then show ?thesis using tw dw n by simp
qed

lemma vfscanf_line:
  assumes "name \<noteq> []" and "\<forall>c \<in> set name. \<not> is_space c"
  shows "vfscanf fattrs_format (FileAttrs_Write a name @ rest) [] =
           (5, [Num (mode a), Num (uid a), Num (gid a), Num (reserved a), Str name], dropWhile is_space rest)"
proof -
  have nl: "is_space (CHR 0x0A)" by (simp add: is_space_def)
  show ?thesis
    using scan_str_name [OF assms] nl
    by (simp add: fattrs_format_def FileAttrs_Write_def scan_printf_o scan_printf_d)
qed

lemma FileAttrs_FILE_line:
  assumes "storable maxlen name"
  shows "FileAttrs_FILE maxlen this cname [] (FileAttrs_Write a name @ rest) =
           Some (persisted this a, name, dropWhile is_space rest)"
  using assms
  by (simp add: FileAttrs_FILE_def vfscanf_line storable_def persisted_def)

lemma FileAttrs_FILE_eof: "FileAttrs_FILE maxlen this cname [] [] = Some (this, cname, [])"
  by (simp add: FileAttrs_FILE_def fattrs_format_def input_failure_def EOF_def)

lemma record_line_simps:
  "record_line (name, None) = []" "record_line (name, Some a) = FileAttrs_Write a name"
  by (simp_all add: record_line_def)

text \<open>
  At the end of the file the constructor leaves the name that the buffer holds, so the loop
  of the loader returns there only if the buffer is empty at some call.\<close>

lemma load_loop_eof_returns:
  assumes "load_loop h n fin m = Some y"
  shows "fin = [] \<longrightarrow> (\<exists>k\<ge>n. uninit_cname h k = [])"
proof (rule load_loop.raw_induct [where P = "\<lambda>h n fin m y. fin = [] \<longrightarrow> (\<exists>k\<ge>n. uninit_cname h k = [])", OF _ assms])
  fix f :: "host \<Rightarrow> nat \<Rightarrow> string \<Rightarrow> (string \<times> FileAttrs option) list \<Rightarrow> (string \<times> FileAttrs option) list option"
  fix h n fin m y
  assume ih: "\<And>h n fin m y. f h n fin m = Some y \<Longrightarrow> fin = [] \<longrightarrow> (\<exists>k\<ge>n. uninit_cname h k = [])"
  assume body: "(case FileAttrs_FILE (MAXNAMELEN h) (uninit_attrs h n) (uninit_cname h n) [] fin of
        None \<Rightarrow> None
      | Some (fattrs, fname, rest) \<Rightarrow>
          if length fname = 0 then Some m
          else f h (Suc n) rest (map_assign fname (Some fattrs) m)) = Some y"
  show "fin = [] \<longrightarrow> (\<exists>k\<ge>n. uninit_cname h k = [])"
  proof
    assume e: "fin = []"
    show "\<exists>k\<ge>n. uninit_cname h k = []"
    proof (cases "uninit_cname h n = []")
      case True
      then show ?thesis by blast
    next
      case False
      with body e have "f h (Suc n) [] (map_assign (uninit_cname h n) (Some (uninit_attrs h n)) m) = Some y"
        by (simp add: FileAttrs_FILE_eof)
      from ih [OF this] obtain k where "k \<ge> Suc n" "uninit_cname h k = []" by auto
      then show ?thesis by (intro exI [of _ k]) simp
    qed
  qed
qed

lemma load_loop_eof_never:
  assumes "\<forall>k\<ge>n. uninit_cname h k \<noteq> []"
  shows "load_loop h n [] m = None"
proof (cases "load_loop h n [] m")
  case None
  then show ?thesis .
next
  case (Some y)
  from load_loop_eof_returns [OF Some] assms show ?thesis by auto
qed

lemma char_of_digits:
  "char_of (54::nat) = CHR ''6''" "char_of (48::nat) = CHR ''0''" "char_of (49::nat) = CHR ''1''"
  "char_of (55::nat) = CHR ''7''" "char_of (52::nat) = CHR ''4''"
  by (simp_all add: char_of_def bit_Suc_0_iff)

lemma ex_text:
  "FileAttrs_Write (ex_attrs\<lparr>mode := 0x180\<rparr>) ''a.txt'' = ''0600:-1:7:0:a.txt'' @ [CHR 0x0A]"
  "FileAttrs_Write (ex_attrs\<lparr>mode := 0x1A4\<rparr>) ''b.txt'' = ''0644:-1:7:0:b.txt'' @ [CHR 0x0A]"
  by (simp_all add: FileAttrs_Write_def printf_o_def printf_d_def ex_attrs_def digits.simps digit_char_def char_of_digits)

lemma ex_sidecar_never: "FileAttrDB_FileAttrDB ex_host_sidecar ''/d'' = None"
proof -
  have hm: "MAXNAMELEN ex_host_sidecar = 256" "uninit_attrs ex_host_sidecar n = ex_attrs" for n
    by (simp_all add: ex_host_sidecar_def ex_host_gone_def plain_host_def)
  have cn: "\<forall>k\<ge>1. uninit_cname ex_host_sidecar k \<noteq> []"
    by (simp add: ex_host_sidecar_def)
  have st: "storable 256 ''a''"
    by (simp add: storable_def is_space_def)
  have r0: "FileAttrs_FILE 256 ex_attrs (uninit_cname ex_host_sidecar 0) [] (FileAttrs_Write ex_attrs ''a'' @ []) =
      Some (persisted ex_attrs ex_attrs, ''a'', [])"
    by (simp only: FileAttrs_FILE_line [OF st]) simp
  have l1: "load_loop ex_host_sidecar 1 [] m = None" for m
    using cn by (rule load_loop_eof_never)
  have l0: "load_loop ex_host_sidecar 0 (FileAttrs_Write ex_attrs ''a'') [] = None"
    using r0 l1 by (subst load_loop.simps) (simp add: hm)
  have f: "files ex_host_sidecar ''/d/.nfsd_fattrs'' = Some (FileAttrs_Write ex_attrs ''a'')"
    by (simp add: ex_host_sidecar_def)
  show ?thesis
    using l0 f by (simp add: FileAttrDB_FileAttrDB_def FILE_TABLE_NAME_def)
qed

subsection \<open>Writing\<close>

lemma FileAttrDB_Write_frame:
  "FileAttrDB_Write h db = (h', db') \<Longrightarrow>
     writable h' = writable h \<and> (\<not> writable h p \<longrightarrow> files h' p = files h p) \<and>
     (\<not> writable h (path db) \<longrightarrow> db' = db)"
  by (auto simp: FileAttrDB_Write_def write_loop_eq split: if_splits)

lemma write_dirty_frame:
  "write_dirty h dbs its = (h', dbs') \<Longrightarrow>
     writable h' = writable h \<and> (\<not> writable h p \<longrightarrow> files h' p = files h p) \<and>
     (\<forall>db. dbs d = Some db \<and> \<not> writable h (path db) \<longrightarrow> dbs' d = Some db)"
proof (induction its arbitrary: h dbs)
  case Nil
  then show ?case by simp
next
  case (Cons it its)
  show ?case
  proof (cases "dbs it")
    case None
    with Cons show ?thesis by simp
  next
    case (Some db)
    obtain h1 db1 where w: "FileAttrDB_Write h db = (h1, db1)" by (cases "FileAttrDB_Write h db")
    from Cons.prems Some w have rest: "write_dirty h1 (dbs(it \<mapsto> db1)) its = (h', dbs')" by simp
    note f = FileAttrDB_Write_frame [OF w, of p]
    note ih = Cons.IH [OF rest]
    show ?thesis using f ih Some by (auto split: if_splits)
  qed
qed

lemma FileAttrDB_Write_eq:
  "FileAttrDB_Write h db =
     (if attrs db \<noteq> [] \<and> writable h (path db)
      then (h\<lparr>files := (files h)(path db \<mapsto> concat (map record_line (attrs db)))\<rparr>,
            db\<lparr>attrs := filter (\<lambda>e. snd e \<noteq> None) (attrs db)\<rparr>)
      else (h, db))"
  by (simp add: FileAttrDB_Write_def write_loop_eq)

lemma write_dirty_other:
  "write_dirty h dbs its = (h', dbs') \<Longrightarrow> d \<notin> set its \<Longrightarrow> dbs' d = dbs d"
proof (induction its arbitrary: h dbs)
  case Nil
  then show ?case by simp
next
  case (Cons it its)
  show ?case
  proof (cases "dbs it")
    case None
    with Cons show ?thesis by simp
  next
    case (Some db)
    obtain h1 db1 where w: "FileAttrDB_Write h db = (h1, db1)" by (cases "FileAttrDB_Write h db")
    from Cons.prems Some w have rest: "write_dirty h1 (dbs(it \<mapsto> db1)) its = (h', dbs')" by simp
    from Cons.prems(2) have "d \<notin> set its" "d \<noteq> it" by auto
    with Cons.IH [OF rest] show ?thesis by simp
  qed
qed

lemma write_dirty_files_other:
  "write_dirty h dbs its = (h', dbs') \<Longrightarrow> (\<And>d db. d \<in> set its \<Longrightarrow> dbs d = Some db \<Longrightarrow> path db \<noteq> q) \<Longrightarrow>
     files h' q = files h q"
proof (induction its arbitrary: h dbs)
  case Nil
  then show ?case by simp
next
  case (Cons it its)
  show ?case
  proof (cases "dbs it")
    case None
    from Cons.prems(1) None have rest: "write_dirty h dbs its = (h', dbs')" by simp
    show ?thesis
      by (rule Cons.IH [OF rest]) (rule Cons.prems(2), simp_all)
  next
    case (Some db)
    obtain h1 db1 where w: "FileAttrDB_Write h db = (h1, db1)" by (cases "FileAttrDB_Write h db")
    from Cons.prems(1) Some w have rest: "write_dirty h1 (dbs(it \<mapsto> db1)) its = (h', dbs')" by simp
    have pq: "path db \<noteq> q" using Cons.prems(2) [of it db] Some by simp
    from w have p1: "path db1 = path db" and f1: "files h1 q = files h q"
      using pq by (auto simp: FileAttrDB_Write_eq split: if_splits)
    have "files h' q = files h1 q"
    proof (rule Cons.IH [OF rest])
      fix d db'
      assume d: "d \<in> set its" and s: "(dbs(it \<mapsto> db1)) d = Some db'"
      show "path db' \<noteq> q"
      proof (cases "d = it")
        case True
        with s p1 pq show ?thesis by simp
      next
        case False
        with s have "dbs d = Some db'" by simp
        with d show ?thesis using Cons.prems(2) [of d db'] by simp
      qed
    qed
    with f1 show ?thesis by simp
  qed
qed

lemma write_dirty_written:
  "write_dirty h dbs its = (h', dbs') \<Longrightarrow> distinct its \<Longrightarrow> d \<in> set its \<Longrightarrow> dbs d = Some db \<Longrightarrow>
   (\<And>d' db'. d' \<noteq> d \<Longrightarrow> dbs d' = Some db' \<Longrightarrow> path db' \<noteq> path db) \<Longrightarrow>
     dbs' d = Some (snd (FileAttrDB_Write h db)) \<and>
     files h' (path db) = files (fst (FileAttrDB_Write h db)) (path db)"
proof (induction its arbitrary: h dbs)
  case Nil
  then show ?case by simp
next
  case (Cons it its)
  show ?case
  proof (cases "it = d")
    case True
    obtain h1 db1 where w: "FileAttrDB_Write h db = (h1, db1)" by (cases "FileAttrDB_Write h db")
    from Cons.prems(1,4) True w have rest: "write_dirty h1 (dbs(d \<mapsto> db1)) its = (h', dbs')" by simp
    from Cons.prems(2) True have nd: "d \<notin> set its" by simp
    have a: "dbs' d = Some db1"
      using write_dirty_other [OF rest nd] by simp
    have "files h' (path db) = files h1 (path db)"
    proof (rule write_dirty_files_other [OF rest])
      fix d' db'
      assume "d' \<in> set its" and s: "(dbs(d \<mapsto> db1)) d' = Some db'"
      with nd have "d' \<noteq> d" by auto
      with s have "dbs d' = Some db'" by simp
      with \<open>d' \<noteq> d\<close> show "path db' \<noteq> path db" by (rule Cons.prems(5))
    qed
    with a w show ?thesis by simp
  next
    case False
    with Cons.prems(3) have din: "d \<in> set its" by simp
    from Cons.prems(2) have dis: "distinct its" by simp
    show ?thesis
    proof (cases "dbs it")
      case None
      from Cons.prems(1) None have rest: "write_dirty h dbs its = (h', dbs')" by simp
      show ?thesis
        by (rule Cons.IH [OF rest dis din Cons.prems(4)]) (rule Cons.prems(5))
    next
      case (Some dbi)
      obtain h1 db1 where w: "FileAttrDB_Write h dbi = (h1, db1)" by (cases "FileAttrDB_Write h dbi")
      from Cons.prems(1) Some w have rest: "write_dirty h1 (dbs(it \<mapsto> db1)) its = (h', dbs')" by simp
      have pi: "path dbi \<noteq> path db" using Cons.prems(5) [of it dbi] False Some by simp
      from w have p1: "path db1 = path dbi" and f1: "files h1 (path db) = files h (path db)"
        and w1: "writable h1 = writable h"
        using pi by (auto simp: FileAttrDB_Write_eq split: if_splits)
      have d1: "(dbs(it \<mapsto> db1)) d = Some db" using Cons.prems(4) False by simp
      have "dbs' d = Some (snd (FileAttrDB_Write h1 db)) \<and>
            files h' (path db) = files (fst (FileAttrDB_Write h1 db)) (path db)"
      proof (rule Cons.IH [OF rest dis din d1])
        fix d' db'
        assume n: "d' \<noteq> d" and s: "(dbs(it \<mapsto> db1)) d' = Some db'"
        show "path db' \<noteq> path db"
        proof (cases "d' = it")
          case True
          with s p1 pi show ?thesis by simp
        next
          case False
          with s have "dbs d' = Some db'" by simp
          with n show ?thesis by (rule Cons.prems(5))
        qed
      qed
      then show ?thesis
        using f1 w1 by (simp add: FileAttrDB_Write_eq)
    qed
  qed
qed

lemma store_methods_path:
  "path (fst (FileAttrDB_GetFileAttrs db p)) = path db"
  "FileAttrDB_SetFileAttrs db p a = Some r \<Longrightarrow> path (fst r) = path db"
  "path (fst (FileAttrDB_Remove db p)) = path db"
  "path (snd (FileAttrDB_Write h db)) = path db"
  by (auto simp: FileAttrDB_GetFileAttrs_def FileAttrDB_SetFileAttrs_def FileAttrDB_Remove_def
      FileAttrDB_Write_eq Let_def split: option.splits if_splits)

lemma write_dirty_paths:
  "write_dirty h dbs its = (h', dbs') \<Longrightarrow>
   (\<And>d db. dbs d = Some db \<Longrightarrow> path db = d @ ''/'' @ FILE_TABLE_NAME) \<Longrightarrow>
     dbs' d = Some db \<Longrightarrow> path db = d @ ''/'' @ FILE_TABLE_NAME"
proof (induction its arbitrary: h dbs)
  case Nil
  from Nil(1) have "dbs' = dbs" by simp
  with Nil(3) have "dbs d = Some db" by simp
  then show ?case by (rule Nil(2))
next
  case (Cons it its)
  show ?case
  proof (cases "dbs it")
    case None
    from Cons.prems(1) None have rest: "write_dirty h dbs its = (h', dbs')" by simp
    show ?thesis
      by (rule Cons.IH [OF rest _ Cons.prems(3)]) (rule Cons.prems(2))
  next
    case (Some dbi)
    obtain h1 db1 where w: "FileAttrDB_Write h dbi = (h1, db1)" by (cases "FileAttrDB_Write h dbi")
    from Cons.prems(1) Some w have rest: "write_dirty h1 (dbs(it \<mapsto> db1)) its = (h', dbs')" by simp
    have p1: "path db1 = path dbi" using store_methods_path(4) [of h dbi] w by simp
    show ?thesis
    proof (rule Cons.IH [OF rest _ Cons.prems(3)])
      fix d' db'
      assume s: "(dbs(it \<mapsto> db1)) d' = Some db'"
      show "path db' = d' @ ''/'' @ FILE_TABLE_NAME"
      proof (cases "d' = it")
        case True
        with s have "db' = db1" by simp
        with p1 Cons.prems(2) [OF Some] True show ?thesis by simp
      next
        case False
        with s have "dbs d' = Some db'" by simp
        then show ?thesis by (rule Cons.prems(2))
      qed
    qed
  qed
qed

subsection \<open>The store of a path\<close>

lemma GetDB_cases:
  "GetDB h ft p =
     (case path2db ft (dirname h (canonicalize h p)) of
        Some db \<Rightarrow> Some (ft, dirname h (canonicalize h p), db)
      | None \<Rightarrow>
          (case FileAttrDB_FileAttrDB h (dirname h (canonicalize h p)) of
             None \<Rightarrow> None
           | Some db \<Rightarrow> Some (ft\<lparr>path2db := (path2db ft)(dirname h (canonicalize h p) \<mapsto> db)\<rparr>,
                              dirname h (canonicalize h p), db)))"
  by (simp add: GetDB_def Let_def)

lemma GetDB_Some:
  assumes "GetDB h ft p = Some (ft1, d, db)"
  shows "d = dirname h (canonicalize h p)" and "path2db ft1 d = Some db"
  using assms by (auto simp: GetDB_cases split: option.splits)

lemma GetDB_handles:
  assumes "GetDB h ft p = Some (ft1, d, db)"
  shows "GetDB h (ft\<lparr>path2handle := ph, handle2path := hp\<rparr>) p =
           Some (ft1\<lparr>path2handle := ph, handle2path := hp\<rparr>, d, db)"
  using assms by (auto simp: GetDB_cases split: option.splits)

lemma GetDB_returns:
  "path2db ft (dirname h (canonicalize h p)) \<noteq> None \<or>
   files h (dirname h (canonicalize h p) @ ''/'' @ FILE_TABLE_NAME) = None \<Longrightarrow> GetDB h ft p \<noteq> None"
  by (auto simp: GetDB_cases FileAttrDB_FileAttrDB_def Let_def split: option.splits)

subsection \<open>The registry under the operations\<close>

lemma put_db_handles:
  "path2handle (put_db ft d r) = path2handle ft" "handle2path (put_db ft d r) = handle2path ft"
  by (simp_all add: put_db_def Dirty_def Let_def)

lemma GetDB_keeps_handles:
  "GetDB h ft p = Some (ft1, d, db) \<Longrightarrow> path2handle ft1 = path2handle ft \<and> handle2path ft1 = handle2path ft"
  by (auto simp: GetDB_cases split: option.splits)

lemma SetFileAttrs_keeps_handles:
  assumes "FileTable_SetFileAttrs h ft p a = Some ft'"
  shows "path2handle ft' = path2handle ft \<and> handle2path ft' = handle2path ft"
proof -
  obtain ft1 d db r where g: "GetDB h ft p = Some (ft1, d, db)" and ft': "ft' = put_db ft1 d r"
    using assms by (auto simp: FileTable_SetFileAttrs_def split: option.splits)
  show ?thesis using GetDB_keeps_handles [OF g] ft' by (simp add: put_db_handles)
qed

lemma GetFileAttrs_keeps_handles:
  assumes "FileTable_GetFileAttrs h ft p = Some (ft', r)"
  shows "path2handle ft' = path2handle ft \<and> handle2path ft' = handle2path ft"
proof -
  obtain ft1 d db r where g: "GetDB h ft p = Some (ft1, d, db)" and ft': "ft' = put_db ft1 d r"
    using assms by (auto simp: FileTable_GetFileAttrs_def split: option.splits prod.splits)
  show ?thesis using GetDB_keeps_handles [OF g] ft' by (simp add: put_db_handles)
qed

lemma Stat_keeps_handles:
  assumes "FileTable_Stat h ft p s = Some (ft', r, s')"
  shows "path2handle ft' = path2handle ft \<and> handle2path ft' = handle2path ft"
proof -
  obtain a where "FileTable_GetFileAttrs h ft (canonicalize h p) = Some (ft', a)"
    using assms by (auto simp: FileTable_Stat_def Let_def split: option.splits)
  then show ?thesis by (rule GetFileAttrs_keeps_handles)
qed

lemma Write_keeps_handles:
  "FileTable_Write h ft = (h', ft') \<Longrightarrow>
     path2handle ft' = path2handle ft \<and> handle2path ft' = handle2path ft"
  by (auto simp: FileTable_Write_def split: prod.splits)

lemma Move_registered:
  assumes reg: "path2handle ft (canonicalize h pFrom) = Some handle"
    and mv: "Move h ft pFrom pTo fstat = Some ft'"
  shows "\<exists>ft1 r s1 ft3 ft4 d db.
           FileTable_Stat h ft (canonicalize h pFrom) fstat = Some (ft1, r, s1) \<and>
           (if r = 0
            then FileTable_SetFileAttrs h
                   (ft1\<lparr> path2handle := ((path2handle ft1)(canonicalize h pFrom := None))(canonicalize h pTo \<mapsto> handle),
                         handle2path := ((handle2path ft1)(handle := None))(handle \<mapsto> canonicalize h pTo) \<rparr>)
                   (canonicalize h pTo) (FileAttrs_stat s1)
            else Some (ft1\<lparr> path2handle := ((path2handle ft1)(canonicalize h pFrom := None))(canonicalize h pTo \<mapsto> handle),
                         handle2path := ((handle2path ft1)(handle := None))(handle \<mapsto> canonicalize h pTo) \<rparr>)) = Some ft3 \<and>
           GetDB h ft3 (canonicalize h pFrom) = Some (ft4, d, db) \<and>
           ft' = put_db ft4 d (FileAttrDB_Remove db (canonicalize h pFrom))"
proof (cases "FileTable_Stat h ft (canonicalize h pFrom) fstat")
  case None
  then show ?thesis using reg mv by (simp add: Move_def Let_def)
next
  case (Some x)
  obtain ft1 r s1 where x: "x = (ft1, r, s1)" by (cases x)
  let ?ft2 = "ft1\<lparr> path2handle := ((path2handle ft1)(canonicalize h pFrom := None))(canonicalize h pTo \<mapsto> handle),
                     handle2path := ((handle2path ft1)(handle := None))(handle \<mapsto> canonicalize h pTo) \<rparr>"
  let ?s = "if r = 0 then FileTable_SetFileAttrs h ?ft2 (canonicalize h pTo) (FileAttrs_stat s1) else Some ?ft2"
  from reg mv Some x have e: "(case ?s of None \<Rightarrow> None
        | Some ft3 \<Rightarrow> (case GetDB h ft3 (canonicalize h pFrom) of None \<Rightarrow> None
            | Some (ft4, dbdir, db) \<Rightarrow> Some (put_db ft4 dbdir (FileAttrDB_Remove db (canonicalize h pFrom))))) = Some ft'"
    by (simp add: Move_def Let_def split del: if_split cong: if_cong)
  then obtain ft3 where s3: "?s = Some ft3"
    by (cases ?s) simp_all
  with e obtain y where g: "GetDB h ft3 (canonicalize h pFrom) = Some y"
    by (cases "GetDB h ft3 (canonicalize h pFrom)") simp_all
  obtain ft4 d db where y: "y = (ft4, d, db)" by (cases y)
  from e s3 g y have "ft' = put_db ft4 d (FileAttrDB_Remove db (canonicalize h pFrom))" by simp
  with Some x s3 g y show ?thesis by blast
qed

lemma Move_handles:
  assumes reg: "path2handle ft (canonicalize h pFrom) = Some handle"
    and mv: "Move h ft pFrom pTo fstat = Some ft'"
  shows "path2handle ft' = ((path2handle ft)(canonicalize h pFrom := None))(canonicalize h pTo \<mapsto> handle)"
    and "handle2path ft' = (handle2path ft)(handle \<mapsto> canonicalize h pTo)"
proof -
  let ?A = "canonicalize h pFrom" and ?B = "canonicalize h pTo"
  from Move_registered [OF reg mv] obtain ft1 r s1 ft3 ft4 d db where
    st: "FileTable_Stat h ft ?A fstat = Some (ft1, r, s1)"
    and s3: "(if r = 0
            then FileTable_SetFileAttrs h
                   (ft1\<lparr> path2handle := ((path2handle ft1)(?A := None))(?B \<mapsto> handle),
                         handle2path := ((handle2path ft1)(handle := None))(handle \<mapsto> ?B) \<rparr>)
                   ?B (FileAttrs_stat s1)
            else Some (ft1\<lparr> path2handle := ((path2handle ft1)(?A := None))(?B \<mapsto> handle),
                         handle2path := ((handle2path ft1)(handle := None))(handle \<mapsto> ?B) \<rparr>)) = Some ft3"
    and g4: "GetDB h ft3 ?A = Some (ft4, d, db)"
    and ft': "ft' = put_db ft4 d (FileAttrDB_Remove db ?A)"
    by blast
  have h1: "path2handle ft1 = path2handle ft" "handle2path ft1 = handle2path ft"
    using Stat_keeps_handles [OF st] by simp_all
  have h3: "path2handle ft3 = ((path2handle ft1)(?A := None))(?B \<mapsto> handle)"
    "handle2path ft3 = (handle2path ft1)(handle \<mapsto> ?B)"
    using s3 by (auto dest!: SetFileAttrs_keeps_handles split: if_splits)
  have h4: "path2handle ft4 = path2handle ft3" "handle2path ft4 = handle2path ft3"
    using GetDB_keeps_handles [OF g4] by simp_all
  show "path2handle ft' = ((path2handle ft)(?A := None))(?B \<mapsto> handle)"
    using ft' h1 h3 h4 by (simp add: put_db_handles)
  show "handle2path ft' = (handle2path ft)(handle \<mapsto> ?B)"
    using ft' h1 h3 h4 by (simp add: put_db_handles)
qed

lemma Remove_handles:
  assumes reg: "path2handle ft (canonicalize h p) = Some handle"
    and rm: "Remove h ft p = Some ft'"
  shows "path2handle ft' = (path2handle ft)(canonicalize h p := None)"
    and "handle2path ft' = (handle2path ft)(handle := None)"
proof -
  let ?ft1 = "ft\<lparr> path2handle := (path2handle ft)(canonicalize h p := None),
                    handle2path := (handle2path ft)(handle := None) \<rparr>"
  obtain ft2 d db where g: "GetDB h ?ft1 (canonicalize h p) = Some (ft2, d, db)"
    and ft': "ft' = put_db ft2 d (FileAttrDB_Remove db (canonicalize h p))"
    using assms by (auto simp: Remove_def Let_def split: option.splits)
  show "path2handle ft' = (path2handle ft)(canonicalize h p := None)"
    using GetDB_keeps_handles [OF g] ft' by (simp add: put_db_handles)
  show "handle2path ft' = (handle2path ft)(handle := None)"
    using GetDB_keeps_handles [OF g] ft' by (simp add: put_db_handles)
qed

lemma inverse_mapsD1: "inverse_maps ft \<Longrightarrow> path2handle ft p = Some k \<Longrightarrow> handle2path ft k = Some p"
  by (simp add: inverse_maps_def)

lemma inverse_mapsD2: "inverse_maps ft \<Longrightarrow> handle2path ft k = Some p \<Longrightarrow> path2handle ft p = Some k"
  by (simp add: inverse_maps_def)

lemma inverse_mapsI:
  assumes "\<And>p k. path2handle ft p = Some k \<Longrightarrow> handle2path ft k = Some p"
    and "\<And>p k. handle2path ft k = Some p \<Longrightarrow> path2handle ft p = Some k"
  shows "inverse_maps ft"
  using assms unfolding inverse_maps_def by blast

lemma inverse_maps_GetFileHandle:
  assumes inv: "inverse_maps ft" and fresh: "fresh_handle h ft p"
  shows "inverse_maps (fst (GetFileHandle h ft p))"
proof (cases "path2handle ft (canonicalize h p)")
  case (Some k)
  then show ?thesis using inv by (simp add: GetFileHandle_def)
next
  case None
  show ?thesis
  proof (cases "stat h (canonicalize h p)")
    case None
    with \<open>path2handle ft (canonicalize h p) = None\<close> show ?thesis
      using inv by (simp add: GetFileHandle_def)
  next
    case (Some s)
    let ?k = "make_file_handle s"
    from fresh None Some have free: "handle2path ft ?k = None"
      by (simp add: fresh_handle_def)
    have ft': "fst (GetFileHandle h ft p) =
        ft\<lparr> path2handle := (path2handle ft)(canonicalize h p \<mapsto> ?k),
             handle2path := (handle2path ft)(?k \<mapsto> canonicalize h p) \<rparr>"
      using None Some by (simp add: GetFileHandle_def Let_def)
    show ?thesis
      unfolding ft'
    proof (rule inverse_mapsI)
      fix q j
      assume "path2handle (ft\<lparr> path2handle := (path2handle ft)(canonicalize h p \<mapsto> ?k),
             handle2path := (handle2path ft)(?k \<mapsto> canonicalize h p) \<rparr>) q = Some j"
      then show "handle2path (ft\<lparr> path2handle := (path2handle ft)(canonicalize h p \<mapsto> ?k),
             handle2path := (handle2path ft)(?k \<mapsto> canonicalize h p) \<rparr>) j = Some q"
        using inverse_mapsD1 [OF inv, of q j] free by (auto split: if_splits)
    next
      fix q j
      assume "handle2path (ft\<lparr> path2handle := (path2handle ft)(canonicalize h p \<mapsto> ?k),
             handle2path := (handle2path ft)(?k \<mapsto> canonicalize h p) \<rparr>) j = Some q"
      then show "path2handle (ft\<lparr> path2handle := (path2handle ft)(canonicalize h p \<mapsto> ?k),
             handle2path := (handle2path ft)(?k \<mapsto> canonicalize h p) \<rparr>) q = Some j"
        using inverse_mapsD2 [OF inv, of j q] None by (auto split: if_splits)
    qed
  qed
qed

lemma inverse_maps_Move:
  assumes inv: "inverse_maps ft" and free: "free_target h ft pFrom pTo"
    and mv: "Move h ft pFrom pTo fstat = Some ft'"
  shows "inverse_maps ft'"
proof (cases "path2handle ft (canonicalize h pFrom)")
  case None
  then have "ft' = ft" using mv by (simp add: Move_def Let_def)
  then show ?thesis using inv by simp
next
  case (Some k)
  let ?A = "canonicalize h pFrom" and ?B = "canonicalize h pTo"
  note m = Move_handles [OF Some mv]
  have k: "handle2path ft k = Some ?A"
    using inv Some by (rule inverse_mapsD1)
  from free Some have target: "?B = ?A \<or> path2handle ft ?B = None"
    by (auto simp: free_target_def)
  show ?thesis
  proof (rule inverse_mapsI)
    fix q j
    assume "path2handle ft' q = Some j"
    then have "(q = ?B \<and> j = k) \<or> (q \<noteq> ?B \<and> q \<noteq> ?A \<and> path2handle ft q = Some j)"
      unfolding m by (auto split: if_splits)
    then show "handle2path ft' j = Some q"
      unfolding m using inverse_mapsD1 [OF inv, of q j] k by auto
  next
    fix q j
    assume "handle2path ft' j = Some q"
    then consider "j = k" "q = ?B" | "j \<noteq> k" "handle2path ft j = Some q"
      unfolding m by (auto split: if_splits)
    then show "path2handle ft' q = Some j"
    proof cases
      case 1
      then show ?thesis unfolding m by simp
    next
      case 2
      have pq: "path2handle ft q = Some j"
        using inv 2(2) by (rule inverse_mapsD2)
      have "q \<noteq> ?A" using pq Some 2(1) by auto
      moreover have "q \<noteq> ?B" using pq Some 2(1) target by auto
      ultimately show ?thesis unfolding m using pq by simp
    qed
  qed
qed

lemma inverse_maps_Remove:
  assumes inv: "inverse_maps ft" and rm: "Remove h ft p = Some ft'"
  shows "inverse_maps ft'"
proof (cases "path2handle ft (canonicalize h p)")
  case None
  then have "ft' = ft" using rm by (simp add: Remove_def Let_def)
  then show ?thesis using inv by simp
next
  case (Some k)
  note m = Remove_handles [OF Some rm]
  show ?thesis
  proof (rule inverse_mapsI)
    fix q j
    assume "path2handle ft' q = Some j"
    then show "handle2path ft' j = Some q"
      unfolding m using inverse_mapsD1 [OF inv, of q j] inverse_mapsD1 [OF inv Some] by (auto split: if_splits)
  next
    fix q j
    assume "handle2path ft' j = Some q"
    then show "path2handle ft' q = Some j"
      unfolding m using inverse_mapsD2 [OF inv, of j q] Some by (auto split: if_splits)
  qed
qed

lemma inverse_maps_cong:
  "inverse_maps ft \<Longrightarrow> path2handle ft' = path2handle ft \<and> handle2path ft' = handle2path ft \<Longrightarrow> inverse_maps ft'"
  by (simp add: inverse_maps_def)

lemma guarded_run_inverse: "guarded_run ft \<Longrightarrow> inverse_maps ft"
proof (induction rule: guarded_run.induct)
  case run_start
  show ?case by (simp add: inverse_maps_def FileTable_FileTable_def)
next
  case (run_get_handle ft h p)
  then show ?case by (simp add: inverse_maps_GetFileHandle)
next
  case (run_move ft h pFrom pTo fstat ft')
  then show ?case by (simp add: inverse_maps_Move)
next
  case (run_remove ft h p ft')
  then show ?case by (simp add: inverse_maps_Remove)
next
  case (run_stat ft h p fstat ft' r fstat')
  then show ?case using inverse_maps_cong Stat_keeps_handles by blast
next
  case (run_set_attrs ft h p a ft')
  then show ?case using inverse_maps_cong SetFileAttrs_keeps_handles by blast
next
  case (run_get_attrs ft h p ft' r)
  then show ?case using inverse_maps_cong GetFileAttrs_keeps_handles by blast
next
  case (run_write ft h h' ft')
  then have "path2handle ft' = path2handle ft \<and> handle2path ft' = handle2path ft"
    by (auto simp: Run_cycle_def dest: Write_keeps_handles split: if_splits)
  with run_write show ?case using inverse_maps_cong by blast
qed

subsection \<open>The tables that the operations build\<close>

text \<open>The empty table is well formed, and every operation keeps a table so.\<close>

lemma wf_table_start: "wf_table FileTable_FileTable"
  by (simp add: wf_table_def FileTable_FileTable_def)

lemma wf_table_handles:
  "wf_table (ft\<lparr>path2handle := ph, handle2path := hp\<rparr>) = wf_table ft"
  by (simp add: wf_table_def)

lemma wf_table_put_db:
  "wf_table ft \<Longrightarrow> path (fst r) = d @ ''/'' @ FILE_TABLE_NAME \<Longrightarrow> wf_table (put_db ft d r)"
  by (simp add: wf_table_def put_db_def Dirty_def Let_def)

lemma wf_table_GetDB:
  assumes "wf_table ft" and "GetDB h ft p = Some (ft1, d, db)"
  shows "wf_table ft1" and "path db = d @ ''/'' @ FILE_TABLE_NAME"
  using assms
  by (auto simp: wf_table_def GetDB_cases FileAttrDB_FileAttrDB_def Let_def split: option.splits if_splits)

lemma wf_table_SetFileAttrs:
  assumes "wf_table ft" and "FileTable_SetFileAttrs h ft p a = Some ft'"
  shows "wf_table ft'"
proof -
  obtain ft1 d db r where g: "GetDB h ft p = Some (ft1, d, db)" and s: "FileAttrDB_SetFileAttrs db p a = Some r"
    and ft': "ft' = put_db ft1 d r"
    using assms(2) by (auto simp: FileTable_SetFileAttrs_def split: option.splits)
  show ?thesis
    unfolding ft' using wf_table_GetDB [OF assms(1) g] store_methods_path(2) [OF s]
    by (intro wf_table_put_db) simp_all
qed

lemma wf_table_GetFileAttrs:
  assumes "wf_table ft" and "FileTable_GetFileAttrs h ft p = Some (ft', r)"
  shows "wf_table ft'"
proof -
  obtain ft1 d db where g: "GetDB h ft p = Some (ft1, d, db)"
    and ft': "ft' = put_db ft1 d (fst (FileAttrDB_GetFileAttrs db p), False)"
    using assms(2) by (auto simp: FileTable_GetFileAttrs_def split: option.splits prod.splits)
  show ?thesis
    unfolding ft' using wf_table_GetDB [OF assms(1) g]
    by (intro wf_table_put_db) (simp_all add: store_methods_path)
qed

lemma wf_table_Stat:
  assumes "wf_table ft" and "FileTable_Stat h ft p s = Some (ft', r, s')"
  shows "wf_table ft'"
proof -
  obtain a where "FileTable_GetFileAttrs h ft (canonicalize h p) = Some (ft', a)"
    using assms(2) by (auto simp: FileTable_Stat_def Let_def split: option.splits)
  with assms(1) show ?thesis by (rule wf_table_GetFileAttrs)
qed

lemma wf_table_GetFileHandle: "wf_table ft \<Longrightarrow> wf_table (fst (GetFileHandle h ft p))"
  by (auto simp: GetFileHandle_def Let_def wf_table_def split: option.splits)

lemma wf_table_Remove:
  assumes "wf_table ft" and "Remove h ft p = Some ft'"
  shows "wf_table ft'"
proof (cases "path2handle ft (canonicalize h p)")
  case None
  then have "ft' = ft" using assms(2) by (simp add: Remove_def Let_def)
  then show ?thesis using assms(1) by simp
next
  case (Some k)
  let ?ft1 = "ft\<lparr> path2handle := (path2handle ft)(canonicalize h p := None),
                    handle2path := (handle2path ft)(k := None) \<rparr>"
  obtain ft2 d db where g: "GetDB h ?ft1 (canonicalize h p) = Some (ft2, d, db)"
    and ft': "ft' = put_db ft2 d (FileAttrDB_Remove db (canonicalize h p))"
    using assms(2) Some by (auto simp: Remove_def Let_def split: option.splits)
  have "wf_table ?ft1" using assms(1) by (simp add: wf_table_handles)
  from wf_table_GetDB [OF this g] show ?thesis
    unfolding ft' by (intro wf_table_put_db) (simp_all add: store_methods_path)
qed

lemma wf_table_Move:
  assumes "wf_table ft" and "Move h ft pFrom pTo fstat = Some ft'"
  shows "wf_table ft'"
proof (cases "path2handle ft (canonicalize h pFrom)")
  case None
  then have "ft' = ft" using assms(2) by (simp add: Move_def Let_def)
  then show ?thesis using assms(1) by simp
next
  case (Some k)
  let ?A = "canonicalize h pFrom" and ?B = "canonicalize h pTo"
  from Move_registered [OF Some assms(2)] obtain ft1 r s1 ft3 ft4 d db where
    st: "FileTable_Stat h ft ?A fstat = Some (ft1, r, s1)"
    and s3: "(if r = 0
            then FileTable_SetFileAttrs h
                   (ft1\<lparr> path2handle := ((path2handle ft1)(?A := None))(?B \<mapsto> k),
                         handle2path := ((handle2path ft1)(k := None))(k \<mapsto> ?B) \<rparr>)
                   ?B (FileAttrs_stat s1)
            else Some (ft1\<lparr> path2handle := ((path2handle ft1)(?A := None))(?B \<mapsto> k),
                         handle2path := ((handle2path ft1)(k := None))(k \<mapsto> ?B) \<rparr>)) = Some ft3"
    and g4: "GetDB h ft3 ?A = Some (ft4, d, db)"
    and ft': "ft' = put_db ft4 d (FileAttrDB_Remove db ?A)"
    by blast
  have 1: "wf_table ft1" using assms(1) st by (rule wf_table_Stat)
  let ?ft2 = "ft1\<lparr> path2handle := ((path2handle ft1)(?A := None))(?B \<mapsto> k),
                     handle2path := ((handle2path ft1)(k := None))(k \<mapsto> ?B) \<rparr>"
  have 2: "wf_table ?ft2" using 1 by (simp add: wf_table_handles)
  have 3: "wf_table ft3"
  proof (cases "r = 0")
    case True
    with s3 have "FileTable_SetFileAttrs h ?ft2 ?B (FileAttrs_stat s1) = Some ft3" by simp
    with 2 show ?thesis by (rule wf_table_SetFileAttrs)
  next
    case False
    with s3 have "ft3 = ?ft2" by simp
    with 2 show ?thesis by simp
  qed
  from wf_table_GetDB [OF 3 g4] show ?thesis
    unfolding ft' by (intro wf_table_put_db) (simp_all add: store_methods_path)
qed

lemma wf_table_Write:
  assumes "wf_table ft"
  shows "wf_table (snd (FileTable_Write h ft))"
proof -
  obtain h' dbs where w: "write_dirty h (path2db ft) (dirty ft) = (h', dbs)"
    by (cases "write_dirty h (path2db ft) (dirty ft)")
  have p: "path db = d @ ''/'' @ FILE_TABLE_NAME" if "path2db ft d = Some db" for d db
    using assms that by (simp add: wf_table_def)
  have "path db = d @ ''/'' @ FILE_TABLE_NAME" if "dbs d = Some db" for d db
    using w p that by (rule write_dirty_paths)
  then show ?thesis
    using w by (simp add: FileTable_Write_def wf_table_def)
qed

lemma wf_table_Run_cycle: "wf_table ft \<Longrightarrow> wf_table (snd (Run_cycle h ft))"
  by (simp add: Run_cycle_def wf_table_Write)

lemma wf_table_paths:
  assumes "wf_table ft" and "path2db ft d = Some db" and "d' \<noteq> d" and "path2db ft d' = Some db'"
  shows "path db' \<noteq> path db"
  using assms by (auto simp: wf_table_def)

lemma table_run_wf: "table_run ft \<Longrightarrow> wf_table ft"
proof (induction rule: table_run.induct)
  case table_start
  show ?case by (rule wf_table_start)
next
  case (table_get_handle ft h p)
  then show ?case by (simp add: wf_table_GetFileHandle)
next
  case (table_move ft h pFrom pTo fstat ft')
  from table_move.IH table_move.hyps(2) show ?case by (rule wf_table_Move)
next
  case (table_remove ft h p ft')
  from table_remove.IH table_remove.hyps(2) show ?case by (rule wf_table_Remove)
next
  case (table_stat ft h p fstat ft' r fstat')
  from table_stat.IH table_stat.hyps(2) show ?case by (rule wf_table_Stat)
next
  case (table_set_attrs ft h p a ft')
  from table_set_attrs.IH table_set_attrs.hyps(2) show ?case by (rule wf_table_SetFileAttrs)
next
  case (table_get_attrs ft h p ft' r)
  from table_get_attrs.IH table_get_attrs.hyps(2) show ?case by (rule wf_table_GetFileAttrs)
next
  case (table_write ft h h' ft')
  from wf_table_Run_cycle [OF table_write.IH, of h] table_write.hyps(2) show ?case by simp
qed

subsection \<open>Registrations that are kept\<close>

lemma kept_run_guarded:
  "kept_run q ft ft' \<Longrightarrow> guarded_run ft \<Longrightarrow> guarded_run ft'"
proof (induction rule: kept_run.induct)
  case kept_start
  then show ?case .
next
  case (kept_get_handle ft1 h p)
  then show ?case by (intro run_get_handle) simp_all
next
  case (kept_move ft1 h pFrom pTo fstat ft2)
  from kept_move.IH [OF kept_move.prems] kept_move.hyps(2,4) show ?case by (rule run_move)
next
  case (kept_remove ft1 h p ft2)
  from kept_remove.IH [OF kept_remove.prems] kept_remove.hyps(3) show ?case by (rule run_remove)
next
  case (kept_stat ft1 h p fstat ft2 r fstat')
  from kept_stat.IH [OF kept_stat.prems] kept_stat.hyps(2) show ?case by (rule run_stat)
next
  case (kept_set_attrs ft1 h p a ft2)
  from kept_set_attrs.IH [OF kept_set_attrs.prems] kept_set_attrs.hyps(2) show ?case by (rule run_set_attrs)
next
  case (kept_get_attrs ft1 h p ft2 r)
  from kept_get_attrs.IH [OF kept_get_attrs.prems] kept_get_attrs.hyps(2) show ?case by (rule run_get_attrs)
next
  case (kept_write ft1 h h' ft2)
  from kept_write.IH [OF kept_write.prems] kept_write.hyps(2) show ?case by (rule run_write)
qed

lemma kept_run_registered:
  "kept_run q ft ft' \<Longrightarrow> path2handle ft q = Some k \<Longrightarrow> path2handle ft' q = Some k"
proof (induction rule: kept_run.induct)
  case kept_start
  then show ?case .
next
  case (kept_get_handle ft1 h p)
  from kept_get_handle.IH [OF kept_get_handle.prems] have r: "path2handle ft1 q = Some k" .
  show ?case
  proof (cases "canonicalize h p = q")
    case True
    with r show ?thesis by (simp add: GetFileHandle_def)
  next
    case False
    with r show ?thesis by (simp add: GetFileHandle_def Let_def split: option.splits)
  qed
next
  case (kept_move ft1 h pFrom pTo fstat ft2)
  from kept_move.IH [OF kept_move.prems] have r: "path2handle ft1 q = Some k" .
  show ?case
  proof (cases "path2handle ft1 (canonicalize h pFrom)")
    case None
    then have "ft2 = ft1" using kept_move.hyps(4) by (simp add: Move_def Let_def)
    with r show ?thesis by simp
  next
    case (Some j)
    note m = Move_handles(1) [OF Some kept_move.hyps(4)]
    from kept_move.hyps(2) Some have "canonicalize h pTo = canonicalize h pFrom \<or> path2handle ft1 (canonicalize h pTo) = None"
      by (simp add: free_target_def)
    with r kept_move.hyps(3) have "canonicalize h pTo \<noteq> q" by auto
    with r kept_move.hyps(3) show ?thesis unfolding m by simp
  qed
next
  case (kept_remove ft1 h p ft2)
  from kept_remove.IH [OF kept_remove.prems] have r: "path2handle ft1 q = Some k" .
  show ?case
  proof (cases "path2handle ft1 (canonicalize h p)")
    case None
    then have "ft2 = ft1" using kept_remove.hyps(3) by (simp add: Remove_def Let_def)
    with r show ?thesis by simp
  next
    case (Some j)
    note m = Remove_handles(1) [OF Some kept_remove.hyps(3)]
    from r kept_remove.hyps(2) show ?thesis unfolding m by simp
  qed
next
  case (kept_stat ft1 h p fstat ft2 r fstat')
  from kept_stat.IH [OF kept_stat.prems] Stat_keeps_handles [OF kept_stat.hyps(2)] show ?case by simp
next
  case (kept_set_attrs ft1 h p a ft2)
  from kept_set_attrs.IH [OF kept_set_attrs.prems] SetFileAttrs_keeps_handles [OF kept_set_attrs.hyps(2)]
  show ?case by simp
next
  case (kept_get_attrs ft1 h p ft2 r)
  from kept_get_attrs.IH [OF kept_get_attrs.prems] GetFileAttrs_keeps_handles [OF kept_get_attrs.hyps(2)]
  show ?case by simp
next
  case (kept_write ft1 h h' ft2)
  have "path2handle ft2 = path2handle ft1"
    using kept_write.hyps(2) by (auto simp: Run_cycle_def dest: Write_keeps_handles split: if_splits)
  with kept_write.IH [OF kept_write.prems] show ?case by simp
qed

lemma GetFileHandle_registers:
  assumes "path2handle ft (canonicalize h p) \<noteq> None \<or> stat h (canonicalize h p) \<noteq> None"
  shows "path2handle (fst (GetFileHandle h ft p)) (canonicalize h p) = Some (snd (GetFileHandle h ft p))"
  using assms by (auto simp: GetFileHandle_def Let_def split: option.splits)

lemma GetFileHandle_registered:
  "path2handle ft (canonicalize h p) = Some k \<Longrightarrow> GetFileHandle h ft p = (ft, k)"
  by (simp add: GetFileHandle_def)

subsection \<open>Bits of the mode\<close>


subsection \<open>Runs on the example hosts\<close>


lemma ex_ax_move: "Move ex_host_ax ex_ax_2 ''/d/x'' ''/d/a'' ex_stat = Some ex_ax_3"
  apply (simp add: Move_def canonicalize_def ex_host_ax_def ex_host_def plain_host_def ex_ax_2_def Let_def)
  apply (simp add: FileTable_Stat_def canonicalize_def FileTable_GetFileAttrs_def GetDB_def FileAttrDB_FileAttrDB_def
      FILE_TABLE_NAME_def ex_dirname_def FileAttrDB_GetFileAttrs_def put_db_def filename_def Let_def overlay_def
      FileTable_SetFileAttrs_def FileAttrDB_SetFileAttrs_def Dirty_def FileAttrDB_Remove_def map_erase_def ex_ax_3_def)
  done

lemma ex_ax_first: "GetFileHandle ex_host_ax FileTable_FileTable ''/d/a'' = (ex_ax_1, ex_handle_a)"
  by (simp add: GetFileHandle_def canonicalize_def ex_host_ax_def plain_host_def ex_handles ex_ax_1_def
      FileTable_FileTable_def Let_def)

lemma ex_ax_second: "GetFileHandle ex_host_ax ex_ax_1 ''/d/x'' = (ex_ax_2, ex_handle)"
  by (simp add: GetFileHandle_def canonicalize_def ex_host_ax_def plain_host_def ex_handles ex_ax_1_def ex_ax_2_def
      Let_def fun_upd_twist)

lemma ex_ax_move_y: "Move ex_host_ax ex_ax_2 ''/d/x'' ''/d/y'' ex_stat = Some ex_ax_y"
  apply (simp add: Move_def canonicalize_def ex_host_ax_def ex_host_def plain_host_def ex_ax_2_def Let_def)
  apply (simp add: FileTable_Stat_def canonicalize_def FileTable_GetFileAttrs_def GetDB_def FileAttrDB_FileAttrDB_def
      FILE_TABLE_NAME_def ex_dirname_def FileAttrDB_GetFileAttrs_def put_db_def filename_def Let_def overlay_def
      FileTable_SetFileAttrs_def FileAttrDB_SetFileAttrs_def Dirty_def FileAttrDB_Remove_def map_erase_def ex_ax_y_def)
  done

lemma ex_de_run:
  "FileTable_SetFileAttrs ex_host_de FileTable_FileTable ''/d/a'' ex_attrs = Some ex_table_dirty"
  "FileTable_GetFileAttrs ex_host_de ex_table_dirty ''/d/z'' = Some (ex_table_d2, None)"
  "FileTable_GetFileAttrs ex_host_de ex_table_d2 ''/f/q'' = Some (ex_table_d3, None)"
  "FileTable_SetFileAttrs ex_host_de ex_table_d3 ''/e/b'' ex_attrs = Some ex_table_de"
  by (simp_all add: ex_host_de_def ex_defs ex_table_z_def ex_table_d2_def ex_table_d3_def ex_table_de_def op_defs
      fun_upd_twist)

section \<open>The claims\<close>

subsection \<open>C1: the registry is a bijection\<close>

text \<open>
  C1, as stated, fails: the handle is a function of the device and inode numbers alone, so
  two paths of one file (hard links) get the same handle, and \<^verbatim>\<open>Move\<close> onto a path that
  has a handle leaves the old reverse entry of that path behind. Amended claim C1: let the
  calls be such that \<^verbatim>\<open>GetFileHandle\<close> never derives a handle that is already a key of
  \<open>handle2path\<close> and \<^verbatim>\<open>Move\<close> never re-keys onto another path that has a handle.
  Then in every table reached from the empty one (1) \<open>path2handle\<close> and
  \<open>handle2path\<close> are exact inverses; (2) for a path that is registered or whose host
  \<^verbatim>\<open>stat\<close> succeeds, \<^verbatim>\<open>GetAbsolutePath\<close> of the handle that \<^verbatim>\<open>GetFileHandle\<close>
  returns is the canonical path; (3) after such a call of \<^verbatim>\<open>GetFileHandle\<close> and any
  further calls, none of which removes the canonical path or moves away from it, the
  canonical path is still registered with the handle that was returned, the handle resolves
  to the canonical path, \<^verbatim>\<open>GetFileHandle\<close> of any path with that canonical form returns
  the same handle and changes nothing, and the maps are inverses; (4) an entry of
  \<open>handle2path\<close> stays bound to its path, and the path to the handle, through all
  calls that neither remove that path nor move away from it; (5) \<^verbatim>\<open>GetFileHandle\<close>
  leaves every existing entry of \<open>handle2path\<close> bound to its path.\<close>

theorem guarded_bijection:
  assumes "guarded_run ft"
  shows "(\<forall>p k. (path2handle ft p = Some k) = (handle2path ft k = Some p)) \<and>
         (\<forall>h p. path2handle ft (canonicalize h p) \<noteq> None \<or> stat h (canonicalize h p) \<noteq> None \<longrightarrow>
            GetAbsolutePath (fst (GetFileHandle h ft p)) (snd (GetFileHandle h ft p)) =
              Some (canonicalize h p)) \<and>
         (\<forall>h p ft'. fresh_handle h ft p \<and>
              (path2handle ft (canonicalize h p) \<noteq> None \<or> stat h (canonicalize h p) \<noteq> None) \<and>
              kept_run (canonicalize h p) (fst (GetFileHandle h ft p)) ft' \<longrightarrow>
            path2handle ft' (canonicalize h p) = Some (snd (GetFileHandle h ft p)) \<and>
            GetAbsolutePath ft' (snd (GetFileHandle h ft p)) = Some (canonicalize h p) \<and>
            (\<forall>h' p'. canonicalize h' p' = canonicalize h p \<longrightarrow>
               GetFileHandle h' ft' p' = (ft', snd (GetFileHandle h ft p)) \<and>
               GetAbsolutePath (fst (GetFileHandle h' ft' p')) (snd (GetFileHandle h' ft' p')) =
                 Some (canonicalize h' p')) \<and>
            (\<forall>q k. (path2handle ft' q = Some k) = (handle2path ft' k = Some q))) \<and>
         (\<forall>q k ft'. handle2path ft k = Some q \<and> kept_run q ft ft' \<longrightarrow>
            handle2path ft' k = Some q \<and> path2handle ft' q = Some k) \<and>
         (\<forall>h p k q. fresh_handle h ft p \<and> handle2path ft k = Some q \<longrightarrow>
            handle2path (fst (GetFileHandle h ft p)) k = Some q)"
proof (intro conjI allI impI)
  have inv: "inverse_maps ft" using assms by (rule guarded_run_inverse)
  {
    fix p k
    show "(path2handle ft p = Some k) = (handle2path ft k = Some p)"
      using inv by (simp add: inverse_maps_def)
  next
    fix h p
    assume "path2handle ft (canonicalize h p) \<noteq> None \<or> stat h (canonicalize h p) \<noteq> None"
    then show "GetAbsolutePath (fst (GetFileHandle h ft p)) (snd (GetFileHandle h ft p)) = Some (canonicalize h p)"
      using inverse_mapsD1 [OF inv, of "canonicalize h p"]
      by (auto simp: GetFileHandle_def GetAbsolutePath_def Let_def split: option.splits)
  next
    fix h p k q
    assume "fresh_handle h ft p \<and> handle2path ft k = Some q"
    then show "handle2path (fst (GetFileHandle h ft p)) k = Some q"
      by (auto simp: GetFileHandle_def fresh_handle_def Let_def split: option.splits)
  next
    fix q k ft'
    assume a: "handle2path ft k = Some q \<and> kept_run q ft ft'"
    then have b: "handle2path ft k = Some q" and kept: "kept_run q ft ft'" by simp_all
    have r: "path2handle ft q = Some k" using inv b by (rule inverse_mapsD2)
    show r': "path2handle ft' q = Some k" using kept r by (rule kept_run_registered)
    have "guarded_run ft'" using kept assms by (rule kept_run_guarded)
    then have "inverse_maps ft'" by (rule guarded_run_inverse)
    then show "handle2path ft' k = Some q" using r' by (rule inverse_mapsD1)
  }
  fix h p ft'
  let ?q = "canonicalize h p" and ?k = "snd (GetFileHandle h ft p)" and ?ft1 = "fst (GetFileHandle h ft p)"
  assume a: "fresh_handle h ft p \<and> (path2handle ft ?q \<noteq> None \<or> stat h ?q \<noteq> None) \<and> kept_run ?q ?ft1 ft'"
  then have fresh: "fresh_handle h ft p" and ok: "path2handle ft ?q \<noteq> None \<or> stat h ?q \<noteq> None"
    and kept: "kept_run ?q ?ft1 ft'" by simp_all
  have g1: "guarded_run ?ft1" using assms fresh by (rule run_get_handle)
  have g': "guarded_run ft'" using kept g1 by (rule kept_run_guarded)
  have inv': "inverse_maps ft'" using g' by (rule guarded_run_inverse)
  have r1: "path2handle ?ft1 ?q = Some ?k" using ok by (rule GetFileHandle_registers)
  show r': "path2handle ft' ?q = Some ?k" using kept r1 by (rule kept_run_registered)
  have b': "handle2path ft' ?k = Some ?q" using inv' r' by (rule inverse_mapsD1)
  then show "GetAbsolutePath ft' ?k = Some ?q" by (simp add: GetAbsolutePath_def)
  {
    fix q k
    show "(path2handle ft' q = Some k) = (handle2path ft' k = Some q)"
      using inv' by (simp add: inverse_maps_def)
  }
  fix h' p'
  assume e: "canonicalize h' p' = ?q"
  show g: "GetFileHandle h' ft' p' = (ft', ?k)"
    using r' e by (intro GetFileHandle_registered) simp
  show "GetAbsolutePath (fst (GetFileHandle h' ft' p')) (snd (GetFileHandle h' ft' p')) = Some (canonicalize h' p')"
    using b' e by (simp add: g GetAbsolutePath_def)
qed

text \<open>
  An instance: /d/a is registered; then /d/x is registered and moved to /d/y, a path
  without a handle. The handle of /d/a resolves to /d/a after each of the three calls, and
  /d/a is still registered with it.\<close>

theorem guarded_bijection_witness:
  "guarded_run FileTable_FileTable \<and>
   fresh_handle ex_host_ax FileTable_FileTable ''/d/a'' \<and>
   stat ex_host_ax (canonicalize ex_host_ax ''/d/a'') \<noteq> None \<and>
   GetFileHandle ex_host_ax FileTable_FileTable ''/d/a'' = (ex_ax_1, ex_handle_a) \<and>
   fresh_handle ex_host_ax ex_ax_1 ''/d/x'' \<and>
   GetFileHandle ex_host_ax ex_ax_1 ''/d/x'' = (ex_ax_2, ex_handle) \<and>
   path2handle ex_ax_2 (canonicalize ex_host_ax ''/d/x'') = Some ex_handle \<and>
   canonicalize ex_host_ax ''/d/y'' \<noteq> canonicalize ex_host_ax ''/d/x'' \<and>
   free_target ex_host_ax ex_ax_2 ''/d/x'' ''/d/y'' \<and>
   Move ex_host_ax ex_ax_2 ''/d/x'' ''/d/y'' ex_stat = Some ex_ax_y \<and>
   kept_run ''/d/a'' ex_ax_1 ex_ax_y \<and>
   path2handle ex_ax_y ''/d/a'' = Some ex_handle_a \<and>
   GetAbsolutePath ex_ax_y ex_handle_a = Some ''/d/a'' \<and>
   GetFileHandle ex_host_ax ex_ax_y ''/d/a'' = (ex_ax_y, ex_handle_a) \<and>
   path2handle ex_ax_y ''/d/y'' = Some ex_handle \<and>
   handle2path ex_ax_y ex_handle = Some ''/d/y'' \<and>
   GetAbsolutePath ex_ax_1 ex_handle_a = Some ''/d/a'' \<and>
   guarded_run ex_ax_1 \<and>
   handle2path ex_ax_1 ex_handle_a = Some ''/d/a'' \<and>
   handle2path ex_ax_2 ex_handle_a = Some ''/d/a'' \<and>
   handle2path ex_ax_y ex_handle_a = Some ''/d/a''"
proof -
  have c: "canonicalize ex_host_ax p = p" for p
    by (simp add: canonicalize_def ex_host_ax_def plain_host_def)
  have st: "stat ex_host_ax ''/d/a'' = Some ex_stat_a" "stat ex_host_ax ''/d/x'' = Some ex_stat"
    by (simp_all add: ex_host_ax_def plain_host_def)
  have hne: "ex_handle \<noteq> ex_handle_a"
    by (simp add: ex_handle_def ex_handle_a_def)
  have f0: "fresh_handle ex_host_ax FileTable_FileTable ''/d/a''"
    by (simp add: fresh_handle_def c st FileTable_FileTable_def)
  have f1: "fresh_handle ex_host_ax ex_ax_1 ''/d/x''"
    using hne by (simp add: fresh_handle_def c st ex_ax_1_def ex_handles)
  have ft: "free_target ex_host_ax ex_ax_2 ''/d/x'' ''/d/y''"
    by (simp add: free_target_def c ex_ax_2_def)
  have rx: "path2handle ex_ax_2 (canonicalize ex_host_ax ''/d/x'') = Some ex_handle"
    by (simp add: c ex_ax_2_def)
  have k1: "kept_run ''/d/a'' ex_ax_1 (fst (GetFileHandle ex_host_ax ex_ax_1 ''/d/x''))"
    by (rule kept_get_handle [OF kept_start f1])
  have mv: "Move ex_host_ax (fst (GetFileHandle ex_host_ax ex_ax_1 ''/d/x'')) ''/d/x'' ''/d/y'' ex_stat = Some ex_ax_y"
    by (simp add: ex_ax_second ex_ax_move_y)
  have ft1: "free_target ex_host_ax (fst (GetFileHandle ex_host_ax ex_ax_1 ''/d/x'')) ''/d/x'' ''/d/y''"
    using ft by (simp add: ex_ax_second)
  have ne: "canonicalize ex_host_ax ''/d/x'' \<noteq> ''/d/a''"
    by (simp add: c)
  have k2: "kept_run ''/d/a'' ex_ax_1 ex_ax_y"
    by (rule kept_move [OF k1 ft1 ne mv])
  have ok: "fresh_handle ex_host_ax FileTable_FileTable ''/d/a'' \<and>
      (path2handle FileTable_FileTable (canonicalize ex_host_ax ''/d/a'') \<noteq> None \<or>
       stat ex_host_ax (canonicalize ex_host_ax ''/d/a'') \<noteq> None) \<and>
      kept_run (canonicalize ex_host_ax ''/d/a'') (fst (GetFileHandle ex_host_ax FileTable_FileTable ''/d/a'')) ex_ax_y"
    using f0 k2 by (simp add: c st ex_ax_first)
  note t = guarded_bijection [OF run_start, THEN conjunct2, THEN conjunct2, THEN conjunct1, rule_format, OF ok]
  have t1: "path2handle ex_ax_y ''/d/a'' = Some ex_handle_a"
    using t [THEN conjunct1] by (simp add: c ex_ax_first)
  have t2: "GetAbsolutePath ex_ax_y ex_handle_a = Some ''/d/a''"
    using t [THEN conjunct2, THEN conjunct1] by (simp add: c ex_ax_first)
  have t3: "GetFileHandle ex_host_ax ex_ax_y ''/d/a'' = (ex_ax_y, ex_handle_a)"
    using t [THEN conjunct2, THEN conjunct2, THEN conjunct1, rule_format, of ex_host_ax "''/d/a''", THEN conjunct1]
    by (simp add: c ex_ax_first)
  note r = t1 t2 t3
  have y: "path2handle ex_ax_y ''/d/y'' = Some ex_handle" "handle2path ex_ax_y ex_handle = Some ''/d/y''"
    by (simp_all add: ex_ax_y_def)
  have s0: "path2handle FileTable_FileTable (canonicalize ex_host_ax ''/d/a'') \<noteq> None \<or>
            stat ex_host_ax (canonicalize ex_host_ax ''/d/a'') \<noteq> None"
    by (simp add: c st)
  have t0: "GetAbsolutePath ex_ax_1 ex_handle_a = Some ''/d/a''"
    using guarded_bijection [OF run_start, THEN conjunct2, THEN conjunct1, rule_format, OF s0]
    by (simp add: c ex_ax_first)
  have g1: "guarded_run ex_ax_1"
    using run_get_handle [OF run_start f0] by (simp add: ex_ax_first)
  have b1: "handle2path ex_ax_1 ex_handle_a = Some ''/d/a''"
    by (simp add: ex_ax_1_def)
  have p4: "handle2path ex_ax_1 ex_handle_a = Some ''/d/a'' \<and> kept_run ''/d/a'' ex_ax_1 ex_ax_y"
    using b1 k2 by simp
  note t4 = guarded_bijection [OF g1, THEN conjunct2, THEN conjunct2, THEN conjunct2, THEN conjunct1,
      rule_format, OF p4, THEN conjunct1]
  have p5: "fresh_handle ex_host_ax ex_ax_1 ''/d/x'' \<and> handle2path ex_ax_1 ex_handle_a = Some ''/d/a''"
    using f1 b1 by simp
  have t5: "handle2path ex_ax_2 ex_handle_a = Some ''/d/a''"
    using guarded_bijection [OF g1, THEN conjunct2, THEN conjunct2, THEN conjunct2, THEN conjunct2,
      rule_format, OF p5]
    by (simp add: ex_ax_second)
  show ?thesis
    using run_start f0 f1 ft rx k2 r y ex_ax_first ex_ax_second ex_ax_move_y t0 g1 b1 t4 t5 by (simp add: c st)
qed

text \<open>
  The claim as stated is false on hard links: after \<^verbatim>\<open>GetFileHandle("/d/a")\<close> and
  \<^verbatim>\<open>GetFileHandle("/d/b")\<close> the handle of /d/a, which resolved to /d/a, resolves to
  /d/b, while /d/a is still registered with it. It is false after a \<^verbatim>\<open>Move\<close> onto a
  path that has a handle, too: with /d/a and /d/x registered, \<^verbatim>\<open>Move("/d/x", "/d/a")\<close>
  registers /d/a with the handle of /d/x and leaves the old handle of /d/a resolving to
  /d/a.\<close>

theorem hard_link_counterexample:
  "GetFileHandle ex_host_hard FileTable_FileTable ''/d/a'' =
     (\<lparr> path2handle = [''/d/a'' \<mapsto> ex_handle], handle2path = [ex_handle \<mapsto> ''/d/a''],
        path2db = Map.empty, dirty = [] \<rparr>, ex_handle) \<and>
   GetFileHandle ex_host_hard (fst (GetFileHandle ex_host_hard FileTable_FileTable ''/d/a'')) ''/d/b'' =
     (ex_hard_2, ex_handle) \<and>
   GetFileHandle ex_host_hard ex_hard_2 ''/d/a'' = (ex_hard_2, ex_handle) \<and>
   canonicalize ex_host_hard ''/d/a'' = ''/d/a'' \<and>
   GetAbsolutePath ex_hard_2 ex_handle = Some ''/d/b'' \<and>
   path2handle ex_hard_2 ''/d/a'' = Some ex_handle \<and>
   handle2path ex_hard_2 ex_handle \<noteq> Some ''/d/a'' \<and>
   GetFileHandle ex_host_ax FileTable_FileTable ''/d/a'' = (ex_ax_1, ex_handle_a) \<and>
   GetFileHandle ex_host_ax ex_ax_1 ''/d/x'' = (ex_ax_2, ex_handle) \<and>
   Move ex_host_ax ex_ax_2 ''/d/x'' ''/d/a'' ex_stat = Some ex_ax_3 \<and>
   handle2path ex_ax_3 ex_handle_a = Some ''/d/a'' \<and>
   path2handle ex_ax_3 ''/d/a'' = Some ex_handle \<and>
   ex_handle \<noteq> ex_handle_a"
proof -
  have a: "GetFileHandle ex_host_hard FileTable_FileTable ''/d/a'' =
     (\<lparr> path2handle = [''/d/a'' \<mapsto> ex_handle], handle2path = [ex_handle \<mapsto> ''/d/a''],
        path2db = Map.empty, dirty = [] \<rparr>, ex_handle) \<and>
   GetFileHandle ex_host_hard (fst (GetFileHandle ex_host_hard FileTable_FileTable ''/d/a'')) ''/d/b'' =
     (ex_hard_2, ex_handle) \<and>
   GetFileHandle ex_host_hard ex_hard_2 ''/d/a'' = (ex_hard_2, ex_handle) \<and>
   canonicalize ex_host_hard ''/d/a'' = ''/d/a'' \<and>
   GetAbsolutePath ex_hard_2 ex_handle = Some ''/d/b'' \<and>
   path2handle ex_hard_2 ''/d/a'' = Some ex_handle \<and>
   handle2path ex_hard_2 ex_handle \<noteq> Some ''/d/a''"
    by (simp add: GetFileHandle_def canonicalize_def ex_host_hard_def ex_host_def plain_host_def ex_handles ex_hard_2_def
      FileTable_FileTable_def GetAbsolutePath_def Let_def)
  have b: "handle2path ex_ax_3 ex_handle_a = Some ''/d/a''" "path2handle ex_ax_3 ''/d/a'' = Some ex_handle"
    "ex_handle \<noteq> ex_handle_a"
    by (simp_all add: ex_ax_3_def ex_handle_def ex_handle_a_def)
  show ?thesis
    using a b ex_ax_first ex_ax_second ex_ax_move by (elim conjE, intro conjI) assumption+
qed

subsection \<open>C2: the overlay on a successful stat\<close>




subsection \<open>C3: a failing stat\<close>

text \<open>
  C3, as stated, fails: the code looks the overlay up and applies it whatever the host
  \<^verbatim>\<open>stat\<close> returned; and \<^verbatim>\<open>Stat\<close> need not return, because the lookup loads the
  sidecar file of a directory whose store is not cached, and that load can run forever
  (C6). Amended claim C3: \<^verbatim>\<open>Stat\<close> returns exactly when the store lookup of the
  canonical path returns, which it does whenever the store of the directory is cached or
  the directory has no sidecar file that can be read. When \<^verbatim>\<open>Stat\<close> returns, it
  returns -1 if the host \<^verbatim>\<open>stat\<close> of the canonical path fails and 0 otherwise; in both
  cases the table is the one the lookup leaves, in which the directory has a store with an
  entry under the file name, and the value of that entry is the overlay that is applied:
  to the host's data after a success, to the caller's buffer after a failure, in which a
  valid overlay \<open>gid\<close> replaces the buffer's.\<close>

theorem Stat_failure:
  "FileTable_Stat h ft p fstat =
     (case FileTable_GetFileAttrs h ft (canonicalize h p) of
        None \<Rightarrow> None
      | Some (ft', fattrs) \<Rightarrow>
          Some (ft', if stat h (canonicalize h p) = None then - 1 else 0,
                overlay fattrs (case stat h (canonicalize h p) of None \<Rightarrow> fstat | Some s \<Rightarrow> s))) \<and>
   (path2db ft (dirname h (canonicalize h (canonicalize h p))) \<noteq> None \<or>
    files h (dirname h (canonicalize h (canonicalize h p)) @ ''/'' @ FILE_TABLE_NAME) = None \<longrightarrow>
      FileTable_Stat h ft p fstat \<noteq> None) \<and>
   (\<forall>ft' r fstat'. FileTable_Stat h ft p fstat = Some (ft', r, fstat') \<longrightarrow>
      (r = - 1 \<or> r = 0) \<and> (r = - 1) = (stat h (canonicalize h p) = None) \<and>
      (\<exists>db. path2db ft' (dirname h (canonicalize h (canonicalize h p))) = Some db \<and>
            map_of (attrs db) (filename (canonicalize h p)) \<noteq> None \<and>
            fstat' = overlay (the (map_of (attrs db) (filename (canonicalize h p))))
                       (case stat h (canonicalize h p) of None \<Rightarrow> fstat | Some s \<Rightarrow> s)) \<and>
      (stat h (canonicalize h p) = None \<longrightarrow>
         (\<forall>a. FileTable_GetFileAttrs h ft (canonicalize h p) = Some (ft', Some a) \<and> Valid (gid a) \<longrightarrow>
            st_gid fstat' = gid a)))"
proof -
  let ?c = "canonicalize h p"
  have 1: "FileTable_Stat h ft p fstat =
     (case FileTable_GetFileAttrs h ft ?c of
        None \<Rightarrow> None
      | Some (ft', fattrs) \<Rightarrow>
          Some (ft', if stat h ?c = None then - 1 else 0,
                overlay fattrs (case stat h ?c of None \<Rightarrow> fstat | Some s \<Rightarrow> s)))"
    by (simp add: FileTable_Stat_def Let_def split: option.splits)
  have 2: "FileTable_Stat h ft p fstat \<noteq> None"
    if "path2db ft (dirname h (canonicalize h ?c)) \<noteq> None \<or>
        files h (dirname h (canonicalize h ?c) @ ''/'' @ FILE_TABLE_NAME) = None"
    using GetDB_returns [OF that]
    by (auto simp: 1 FileTable_GetFileAttrs_def split: option.splits prod.splits)
  have 3: "(r = - 1 \<or> r = 0) \<and> (r = - 1) = (stat h ?c = None) \<and>
      (\<exists>db. path2db ft' (dirname h (canonicalize h ?c)) = Some db \<and>
            map_of (attrs db) (filename ?c) \<noteq> None \<and>
            fstat' = overlay (the (map_of (attrs db) (filename ?c)))
                       (case stat h ?c of None \<Rightarrow> fstat | Some s \<Rightarrow> s)) \<and>
      (stat h ?c = None \<longrightarrow>
         (\<forall>a. FileTable_GetFileAttrs h ft ?c = Some (ft', Some a) \<and> Valid (gid a) \<longrightarrow>
            st_gid fstat' = gid a))"
    if s: "FileTable_Stat h ft p fstat = Some (ft', r, fstat')" for ft' r fstat'
  proof -
    from s obtain fattrs where g: "FileTable_GetFileAttrs h ft ?c = Some (ft', fattrs)"
      and r: "r = (if stat h ?c = None then - 1 else 0)"
      and f: "fstat' = overlay fattrs (case stat h ?c of None \<Rightarrow> fstat | Some s \<Rightarrow> s)"
      by (auto simp: 1 split: option.splits)
    from g obtain ft1 d db where gd: "GetDB h ft ?c = Some (ft1, d, db)"
      and ft': "ft' = put_db ft1 d (fst (FileAttrDB_GetFileAttrs db ?c), False)"
      and fa: "fattrs = snd (FileAttrDB_GetFileAttrs db ?c)"
      by (auto simp: FileTable_GetFileAttrs_def split: option.splits prod.splits)
    have d: "d = dirname h (canonicalize h ?c)" using GetDB_Some(1) [OF gd] .
    let ?db = "fst (FileAttrDB_GetFileAttrs db ?c)"
    have p: "path2db ft' (dirname h (canonicalize h ?c)) = Some ?db"
      using ft' d by (simp add: put_db_def)
    have m: "map_of (attrs ?db) (filename ?c) = Some fattrs"
      using fa by (auto simp: FileAttrDB_GetFileAttrs_def Let_def map_of_map_assign split: option.splits)
    have u: "st_gid fstat' = gid a" if "stat h ?c = None" "fattrs = Some a" "Valid (gid a)" for a
      using that f by (simp add: overlay_def)
    show ?thesis
      using r p m f g u by auto
  qed
  show ?thesis
    using 1 2 3 by blast
qed

text \<open>An instance: the store of /d is cached, /d/x has an overlay record and the host \<^verbatim>\<open>stat\<close> fails.\<close>

theorem Stat_failure_witness:
  "path2db ex_table_x (dirname ex_host_gone (canonicalize ex_host_gone (canonicalize ex_host_gone ''/d/x''))) \<noteq> None \<and>
   stat ex_host_gone (canonicalize ex_host_gone ''/d/x'') = None \<and>
   FileTable_GetFileAttrs ex_host_gone ex_table_x (canonicalize ex_host_gone ''/d/x'') = Some (ex_table_x, Some ex_dir_attrs) \<and>
   Valid (gid ex_dir_attrs) \<and> gid ex_dir_attrs = 7 \<and>
   FileTable_Stat ex_host_gone ex_table_x ''/d/x'' ex_stat = Some (ex_table_x, - 1, ex_stat\<lparr>st_mode := 0xC1ED, st_gid := 7\<rparr>)"
proof -
  have 0: "path2db ex_table_x (dirname ex_host_gone (canonicalize ex_host_gone (canonicalize ex_host_gone ''/d/x''))) \<noteq> None"
    by (simp add: ex_defs op_defs)
  have 1: "FileTable_GetFileAttrs ex_host_gone ex_table_x (canonicalize ex_host_gone ''/d/x'') = Some (ex_table_x, Some ex_dir_attrs)"
    by (simp add: ex_defs op_defs)
  have 2: "stat ex_host_gone (canonicalize ex_host_gone ''/d/x'') = None"
    by (simp add: ex_defs op_defs)
  have 3: "overlay (Some ex_dir_attrs) ex_stat = ex_stat\<lparr>st_mode := 0xC1ED, st_gid := 7\<rparr>"
    by (simp add: ex_defs op_defs S_IFMT_def)
  have 4: "Valid (gid ex_dir_attrs)" "gid ex_dir_attrs = 7"
    by (simp_all add: ex_defs Valid_def)
  from Stat_failure [of ex_host_gone ex_table_x "''/d/x''" ex_stat]
  have "FileTable_Stat ex_host_gone ex_table_x ''/d/x'' ex_stat =
     (case FileTable_GetFileAttrs ex_host_gone ex_table_x (canonicalize ex_host_gone ''/d/x'') of
        None \<Rightarrow> None
      | Some (ft', fattrs) \<Rightarrow>
          Some (ft', if stat ex_host_gone (canonicalize ex_host_gone ''/d/x'') = None then - 1 else 0,
                overlay fattrs (case stat ex_host_gone (canonicalize ex_host_gone ''/d/x'') of None \<Rightarrow> ex_stat | Some s \<Rightarrow> s)))"
    by blast
  then show ?thesis
    using 0 1 2 3 4 by simp
qed

text \<open>
  The claim as stated is false there: the host \<^verbatim>\<open>stat\<close> fails, and the buffer comes back
  with the overlay's mode and gid; on the empty table the failing call has created the
  store of /d and inserted an entry for x. And where /d has a sidecar file with one record
  and the name buffer holds the name read last, the host \<^verbatim>\<open>stat\<close> fails and the call
  never returns.\<close>

theorem Stat_failure_counterexample:
  "stat ex_host_gone (canonicalize ex_host_gone ''/d/x'') = None \<and>
   FileTable_Stat ex_host_gone ex_table_x ''/d/x'' ex_stat =
     Some (ex_table_x, - 1, ex_stat\<lparr>st_mode := 0xC1ED, st_gid := 7\<rparr>) \<and>
   FileTable_Stat ex_host_gone FileTable_FileTable ''/d/x'' ex_stat = Some (ex_table_null, - 1, ex_stat) \<and>
   stat ex_host_sidecar (canonicalize ex_host_sidecar ''/d/x'') = None \<and>
   files ex_host_sidecar ''/d/.nfsd_fattrs'' = Some (FileAttrs_Write ex_attrs ''a'') \<and>
   FileTable_Stat ex_host_sidecar FileTable_FileTable ''/d/x'' ex_stat = None"
proof -
  have a: "stat ex_host_gone (canonicalize ex_host_gone ''/d/x'') = None \<and>
   FileTable_Stat ex_host_gone ex_table_x ''/d/x'' ex_stat =
     Some (ex_table_x, - 1, ex_stat\<lparr>st_mode := 0xC1ED, st_gid := 7\<rparr>) \<and>
   FileTable_Stat ex_host_gone FileTable_FileTable ''/d/x'' ex_stat = Some (ex_table_null, - 1, ex_stat)"
    by (simp add: ex_defs ex_table_null_def op_defs S_IFMT_def)
  have c: "canonicalize ex_host_sidecar p = p" for p
    by (simp add: canonicalize_def ex_host_sidecar_def ex_host_gone_def plain_host_def)
  have s: "stat ex_host_sidecar p = None" for p
    by (simp add: ex_host_sidecar_def ex_host_gone_def plain_host_def)
  have d: "dirname ex_host_sidecar ''/d/x'' = ''/d''"
    by (simp add: ex_host_sidecar_def ex_host_gone_def plain_host_def ex_dirname_def)
  have f: "files ex_host_sidecar ''/d/.nfsd_fattrs'' = Some (FileAttrs_Write ex_attrs ''a'')"
    by (simp add: ex_host_sidecar_def)
  have g: "GetDB ex_host_sidecar FileTable_FileTable ''/d/x'' = None"
    by (simp add: GetDB_cases c d ex_sidecar_never FileTable_FileTable_def)
  have "FileTable_Stat ex_host_sidecar FileTable_FileTable ''/d/x'' ex_stat = None"
    by (simp add: FileTable_Stat_def FileTable_GetFileAttrs_def c g)
  then show ?thesis
    using a c s f by simp
qed

subsection \<open>C4: the flush and the dirty set\<close>

text \<open>
  C4, as stated, fails: \<^verbatim>\<open>FileAttrDB::Write\<close> reports nothing and \<^verbatim>\<open>FileTable::Write\<close>
  clears the dirty set after the loop. Amended claim C4, for every table that the
  operations produce from the empty one: a flush writes every dirty store and leaves the
  dirty set empty whether or not the writes succeeded. The file of a dirty store that has
  an entry and can be opened for writing holds the lines of the entries that are not null,
  and the store keeps exactly those entries; a store that is not dirty is left as it was,
  and so is its file; a file that cannot be opened for writing is left as it was, and the
  store that should have been written to it is left as it was in memory, no longer marked
  dirty.\<close>

theorem Write_clears_dirty:
  assumes "table_run ft" and "FileTable_Write h ft = (h', ft')"
  shows "dirty ft' = [] \<and>
         (\<forall>d db. d \<in> set (dirty ft) \<and> path2db ft d = Some db \<and> attrs db \<noteq> [] \<and> writable h (path db) \<longrightarrow>
            files h' (path db) = Some (concat (map record_line (attrs db))) \<and>
            path2db ft' d = Some (db\<lparr>attrs := filter (\<lambda>e. snd e \<noteq> None) (attrs db)\<rparr>)) \<and>
         (\<forall>d db. d \<notin> set (dirty ft) \<and> path2db ft d = Some db \<longrightarrow>
            files h' (path db) = files h (path db) \<and> path2db ft' d = Some db) \<and>
         (\<forall>p. \<not> writable h p \<longrightarrow> files h' p = files h p) \<and>
         (\<forall>d db. path2db ft d = Some db \<and> \<not> writable h (path db) \<longrightarrow> path2db ft' d = Some db)"
proof -
  have wf: "wf_table ft" using assms(1) by (rule table_run_wf)
  obtain dbs where w: "write_dirty h (path2db ft) (dirty ft) = (h', dbs)" and ft': "ft' = ft\<lparr>path2db := dbs, dirty := []\<rparr>"
    using assms(2) by (auto simp: FileTable_Write_def split: prod.splits)
  have dis: "distinct (dirty ft)" using wf by (simp add: wf_table_def)
  have 1: "files h' (path db) = Some (concat (map record_line (attrs db))) \<and>
           path2db ft' d = Some (db\<lparr>attrs := filter (\<lambda>e. snd e \<noteq> None) (attrs db)\<rparr>)"
    if "d \<in> set (dirty ft) \<and> path2db ft d = Some db \<and> attrs db \<noteq> [] \<and> writable h (path db)" for d db
  proof -
    from that have d: "d \<in> set (dirty ft)" and s: "path2db ft d = Some db" and ne: "attrs db \<noteq> []"
      and wr: "writable h (path db)" by simp_all
    have "dbs d = Some (snd (FileAttrDB_Write h db)) \<and>
          files h' (path db) = files (fst (FileAttrDB_Write h db)) (path db)"
      by (rule write_dirty_written [OF w dis d s]) (rule wf_table_paths [OF wf s])
    then show ?thesis using ne wr ft' by (simp add: FileAttrDB_Write_eq)
  qed
  have 2: "files h' (path db) = files h (path db) \<and> path2db ft' d = Some db"
    if "d \<notin> set (dirty ft) \<and> path2db ft d = Some db" for d db
  proof -
    from that have d: "d \<notin> set (dirty ft)" and s: "path2db ft d = Some db" by simp_all
    have "files h' (path db) = files h (path db)"
    proof (rule write_dirty_files_other [OF w])
      fix d' db'
      assume "d' \<in> set (dirty ft)" and s': "path2db ft d' = Some db'"
      with d have "d' \<noteq> d" by auto
      then show "path db' \<noteq> path db" using s' by (rule wf_table_paths [OF wf s])
    qed
    then show ?thesis using write_dirty_other [OF w d] s ft' by simp
  qed
  have 3: "\<forall>p. \<not> writable h p \<longrightarrow> files h' p = files h p"
    using write_dirty_frame [OF w] by blast
  have 4: "\<forall>d db. path2db ft d = Some db \<and> \<not> writable h (path db) \<longrightarrow> path2db ft' d = Some db"
    using write_dirty_frame [OF w] ft' by auto
  have 0: "dirty ft' = []" using ft' by simp
  show ?thesis using 0 1 2 3 4 by blast
qed

text \<open>
  An instance: four calls leave the dirty stores of /d and /e and the store of /f, which
  is not dirty; the file of /e cannot be opened for writing. After the flush the file of
  /d holds the line of a and the store of /d has lost its null entry; the file of /e does
  not exist and the store of /e is as it was; the store of /f is as it was and has no
  file.\<close>

theorem Write_clears_dirty_witness:
  "FileTable_SetFileAttrs ex_host_de FileTable_FileTable ''/d/a'' ex_attrs = Some ex_table_dirty \<and>
   FileTable_GetFileAttrs ex_host_de ex_table_dirty ''/d/z'' = Some (ex_table_d2, None) \<and>
   FileTable_GetFileAttrs ex_host_de ex_table_d2 ''/f/q'' = Some (ex_table_d3, None) \<and>
   FileTable_SetFileAttrs ex_host_de ex_table_d3 ''/e/b'' ex_attrs = Some ex_table_de \<and>
   table_run ex_table_de \<and>
   dirty ex_table_de = [''/e'', ''/d''] \<and>
   path2db ex_table_de ''/d'' = Some \<lparr>path = ''/d/.nfsd_fattrs'', attrs = [(''a'', Some ex_attrs), (''z'', None)]\<rparr> \<and>
   path2db ex_table_de ''/e'' = Some \<lparr>path = ''/e/.nfsd_fattrs'', attrs = [(''b'', Some ex_attrs)]\<rparr> \<and>
   path2db ex_table_de ''/f'' = Some \<lparr>path = ''/f/.nfsd_fattrs'', attrs = [(''q'', None)]\<rparr> \<and>
   writable ex_host_de ''/d/.nfsd_fattrs'' \<and> \<not> writable ex_host_de ''/e/.nfsd_fattrs'' \<and>
   writable ex_host_de ''/f/.nfsd_fattrs'' \<and>
   files ex_host_de ''/e/.nfsd_fattrs'' = None \<and> files ex_host_de ''/f/.nfsd_fattrs'' = None \<and>
   dirty (snd (FileTable_Write ex_host_de ex_table_de)) = [] \<and>
   files (fst (FileTable_Write ex_host_de ex_table_de)) ''/d/.nfsd_fattrs'' = Some (FileAttrs_Write ex_attrs ''a'') \<and>
   path2db (snd (FileTable_Write ex_host_de ex_table_de)) ''/d'' =
     Some \<lparr>path = ''/d/.nfsd_fattrs'', attrs = [(''a'', Some ex_attrs)]\<rparr> \<and>
   files (fst (FileTable_Write ex_host_de ex_table_de)) ''/e/.nfsd_fattrs'' = None \<and>
   path2db (snd (FileTable_Write ex_host_de ex_table_de)) ''/e'' =
     Some \<lparr>path = ''/e/.nfsd_fattrs'', attrs = [(''b'', Some ex_attrs)]\<rparr> \<and>
   files (fst (FileTable_Write ex_host_de ex_table_de)) ''/f/.nfsd_fattrs'' = None \<and>
   path2db (snd (FileTable_Write ex_host_de ex_table_de)) ''/f'' =
     Some \<lparr>path = ''/f/.nfsd_fattrs'', attrs = [(''q'', None)]\<rparr>"
proof -
  let ?dd = "\<lparr>path = ''/d/.nfsd_fattrs'', attrs = [(''a'', Some ex_attrs), (''z'', None)]\<rparr>"
  let ?de = "\<lparr>path = ''/e/.nfsd_fattrs'', attrs = [(''b'', Some ex_attrs)]\<rparr>"
  let ?df = "\<lparr>path = ''/f/.nfsd_fattrs'', attrs = [(''q'', None :: FileAttrs option)]\<rparr>"
  have run: "table_run ex_table_de"
    by (rule table_set_attrs [OF table_get_attrs [OF table_get_attrs [OF table_set_attrs
          [OF table_start ex_de_run(1)] ex_de_run(2)] ex_de_run(3)] ex_de_run(4)])
  have e: "FileTable_Write ex_host_de ex_table_de =
             (fst (FileTable_Write ex_host_de ex_table_de), snd (FileTable_Write ex_host_de ex_table_de))"
    by simp
  have d: "dirty ex_table_de = [''/e'', ''/d'']" "path2db ex_table_de ''/d'' = Some ?dd"
    "path2db ex_table_de ''/e'' = Some ?de" "path2db ex_table_de ''/f'' = Some ?df"
    by (simp_all add: ex_table_de_def)
  have w: "writable ex_host_de ''/d/.nfsd_fattrs''" "\<not> writable ex_host_de ''/e/.nfsd_fattrs''"
    "writable ex_host_de ''/f/.nfsd_fattrs''"
    "files ex_host_de ''/e/.nfsd_fattrs'' = None" "files ex_host_de ''/f/.nfsd_fattrs'' = None"
    by (simp_all add: ex_host_de_def ex_host_def plain_host_def)
  note t = Write_clears_dirty [OF run e]
  have 0: "dirty (snd (FileTable_Write ex_host_de ex_table_de)) = []"
    using t [THEN conjunct1] .
  have hd: "''/d'' \<in> set (dirty ex_table_de) \<and> path2db ex_table_de ''/d'' = Some ?dd \<and> attrs ?dd \<noteq> [] \<and>
            writable ex_host_de (path ?dd)"
    using d w by simp
  note 1 = t [THEN conjunct2, THEN conjunct1, rule_format, OF hd]
  have hf: "''/f'' \<notin> set (dirty ex_table_de) \<and> path2db ex_table_de ''/f'' = Some ?df"
    using d by simp
  note 5 = t [THEN conjunct2, THEN conjunct2, THEN conjunct1, rule_format, OF hf]
  have he: "path2db ex_table_de ''/e'' = Some ?de \<and> \<not> writable ex_host_de (path ?de)"
    using d w by simp
  note 2 = t [THEN conjunct2, THEN conjunct2, THEN conjunct2, THEN conjunct2, rule_format, OF he]
  note 3 = t [THEN conjunct2, THEN conjunct2, THEN conjunct2, THEN conjunct1, rule_format, OF w(2)]
  show ?thesis
    using ex_de_run run d w 0 1 2 3 5 by (simp add: record_line_simps)
qed

text \<open>
  The claim as stated is false there: the write of the dirty store of /d fails, the store
  is no longer in the dirty set, no file exists, and the next turn of the maintenance loop
  does nothing.\<close>

theorem Write_failure_counterexample:
  "\<not> writable ex_host_ro (path ex_db) \<and> path2db ex_table_dirty ''/d'' = Some ex_db \<and>
   ''/d'' \<in> set (dirty ex_table_dirty) \<and>
   ''/d'' \<notin> set (dirty (snd (FileTable_Write ex_host_ro ex_table_dirty))) \<and>
   files (fst (FileTable_Write ex_host_ro ex_table_dirty)) (path ex_db) = None \<and>
   Run_cycle (fst (FileTable_Write ex_host_ro ex_table_dirty)) (snd (FileTable_Write ex_host_ro ex_table_dirty)) =
     FileTable_Write ex_host_ro ex_table_dirty"
  by (simp add: ex_defs FileTable_Write_def FileAttrDB_Write_def Run_cycle_def)

subsection \<open>C5: the handle across a rename\<close>




subsection \<open>C6: the round trip through the sidecar file\<close>

text \<open>
  C6 does not hold of the code. \<^verbatim>\<open>FileAttrs::FileAttrs(FILE*, string&)\<close> tests
  \<^verbatim>\<open>if(fscanf(...))\<close>: at the end of the file \<^verbatim>\<open>fscanf\<close> returns \<^verbatim>\<open>EOF\<close>, which is
  -1 and not zero, so the name is assigned from the buffer \<^verbatim>\<open>cname\<close>, which
  \<^verbatim>\<open>fscanf\<close> has not written. The loop of \<^verbatim>\<open>FileAttrDB::FileAttrDB\<close> ends on an empty
  name only; where the buffer holds the name that the call before left in it, the loop
  never ends. The run: the store of the specification's example (a.txt with mode 0600,
  b.txt with mode 0644) is written, the file holds the two lines, the read at the end of
  the file leaves the name b.txt, and the constructor, reading the file, never returns. A
  second defect: \<^verbatim>\<open>%s\<close> stops at white space, so the store with the single name
  "my file" comes back with the single name "my".\<close>

theorem reload_never_returns:
  "attrs ex_db_ab = [(''a.txt'', Some (ex_attrs\<lparr>mode := 0x180\<rparr>)), (''b.txt'', Some (ex_attrs\<lparr>mode := 0x1A4\<rparr>))] \<and>
   files (fst (FileAttrDB_Write ex_host_stale ex_db_ab)) ''/d/.nfsd_fattrs'' =
     Some (''0600:-1:7:0:a.txt'' @ [CHR 0x0A] @ ''0644:-1:7:0:b.txt'' @ [CHR 0x0A]) \<and>
   uninit_cname ex_host_stale 2 = ''b.txt'' \<and>
   FileAttrs_FILE 256 ex_attrs ''b.txt'' [] [] = Some (ex_attrs, ''b.txt'', []) \<and>
   FileAttrDB_FileAttrDB (fst (FileAttrDB_Write ex_host_stale ex_db_ab)) ''/d'' = None \<and>
   FileAttrDB_FileAttrDB (fst (FileAttrDB_Write ex_host_stale ex_db_space)) ''/d'' =
     Some \<lparr>path = ''/d/.nfsd_fattrs'', attrs = [(''my'', Some ex_attrs)]\<rparr>"
proof -
  let ?a = "ex_attrs\<lparr>mode := 0x180\<rparr>" and ?b = "ex_attrs\<lparr>mode := 0x1A4\<rparr>"
  let ?la = "FileAttrs_Write ?a ''a.txt''" and ?lb = "FileAttrs_Write ?b ''b.txt''"
  let ?h = "ex_host_stale\<lparr>files := [''/d/.nfsd_fattrs'' \<mapsto> ?la @ ?lb]\<rparr>"
  have w: "fst (FileAttrDB_Write ex_host_stale ex_db_ab) = ?h"
    by (simp add: FileAttrDB_Write_def ex_db_ab_def ex_host_stale_def ex_host_def plain_host_def)
  have hm: "MAXNAMELEN ex_host_stale = 256" "uninit_attrs ex_host_stale n = ex_attrs" for n
    by (simp_all add: ex_host_stale_def ex_host_def plain_host_def)
  have cn: "\<forall>k\<ge>2. uninit_cname ?h k \<noteq> []"
    by (simp add: ex_host_stale_def)
  have st: "storable 256 ''a.txt''" "storable 256 ''b.txt''"
    by (simp_all add: storable_def is_space_def)
  have sp: "dropWhile is_space (?lb @ []) = ?lb"
    by (simp add: FileAttrs_Write_def is_space_def)
  have r0: "FileAttrs_FILE 256 ex_attrs (uninit_cname ?h 0) [] (?la @ ?lb @ []) = Some (persisted ex_attrs ?a, ''a.txt'', ?lb)"
    using sp by (simp only: FileAttrs_FILE_line [OF st(1)])
  have r1: "FileAttrs_FILE 256 ex_attrs (uninit_cname ?h 1) [] (?lb @ []) = Some (persisted ex_attrs ?b, ''b.txt'', [])"
    by (simp only: FileAttrs_FILE_line [OF st(2)]) simp
  have l2: "load_loop ?h 2 [] m = None" for m
    using cn by (rule load_loop_eof_never)
  have l1: "load_loop ?h (Suc 0) ?lb m = None" for m
    using r1 l2 by (subst load_loop.simps) (simp add: hm numeral_2_eq_2)
  have l0: "load_loop ?h 0 (?la @ ?lb) [] = None"
    using r0 l1 by (subst load_loop.simps) (simp add: hm)
  have a: "FileAttrDB_FileAttrDB ?h ''/d'' = None"
    using l0 by (simp add: FileAttrDB_FileAttrDB_def FILE_TABLE_NAME_def)
  let ?g = "ex_host_stale\<lparr>files := [''/d/.nfsd_fattrs'' \<mapsto> FileAttrs_Write ex_attrs ''my file'']\<rparr>"
  have gw: "fst (FileAttrDB_Write ex_host_stale ex_db_space) = ?g"
    by (simp add: FileAttrDB_Write_def ex_db_space_def ex_host_stale_def ex_host_def plain_host_def)
  have sp: "is_space CHR '' ''" "\<not> is_space CHR ''m''" "\<not> is_space CHR ''y''" "is_space CHR 0x0A" "\<not> is_space CHR ''f''"
    by (simp_all add: is_space_def)
  have s: "scan_str (''my file'' @ CHR 0x0A # r) = Item ''my'' ('' file'' @ CHR 0x0A # r)" for r
    by (simp add: scan_str_def sp)
  have v1: "vfscanf fattrs_format (FileAttrs_Write ex_attrs ''my file'') [] =
      (5, [Num (mode ex_attrs), Num (uid ex_attrs), Num (gid ex_attrs), Num (reserved ex_attrs), Str ''my''],
       [CHR ''f'', CHR ''i'', CHR ''l'', CHR ''e'', CHR 0x0A])"
    using s [of "[]"] by (simp add: fattrs_format_def FileAttrs_Write_def scan_printf_o scan_printf_d sp)
  have q1: "FileAttrs_FILE 256 ex_attrs c [] (FileAttrs_Write ex_attrs ''my file'') =
      Some (ex_attrs, ''my'', [CHR ''f'', CHR ''i'', CHR ''l'', CHR ''e'', CHR 0x0A])" for c
    by (simp add: FileAttrs_FILE_def v1)
  have q2: "FileAttrs_FILE 256 ex_attrs c [] ([CHR ''f'', CHR ''i'', CHR ''l'', CHR ''e'', CHR 0x0A]) =
      Some (ex_attrs, [], [CHR ''f'', CHR ''i'', CHR ''l'', CHR ''e'', CHR 0x0A])" for c
    by (simp add: FileAttrs_FILE_def fattrs_format_def)

  have t2: "load_loop ?g (Suc 0) ([CHR ''f'', CHR ''i'', CHR ''l'', CHR ''e'', CHR 0x0A]) m = Some m" for m
    by (subst load_loop.simps) (simp add: hm q2)
  have t1: "load_loop ?g 0 (FileAttrs_Write ex_attrs ''my file'') [] = Some [(''my'', Some ex_attrs)]"
    by (subst load_loop.simps) (simp add: hm q1 t2)
  have b: "FileAttrDB_FileAttrDB ?g ''/d'' = Some \<lparr>path = ''/d/.nfsd_fattrs'', attrs = [(''my'', Some ex_attrs)]\<rparr>"
    using t1 by (simp add: FileAttrDB_FileAttrDB_def FILE_TABLE_NAME_def)
  have e: "files ?h ''/d/.nfsd_fattrs'' = Some (''0600:-1:7:0:a.txt'' @ [CHR 0x0A] @ ''0644:-1:7:0:b.txt'' @ [CHR 0x0A])"
    by (simp add: ex_text)
  have u: "uninit_cname ex_host_stale 2 = ''b.txt''"
    by (simp add: ex_host_stale_def)
  have f: "FileAttrs_FILE 256 ex_attrs ''b.txt'' [] [] = Some (ex_attrs, ''b.txt'', [])"
    by (rule FileAttrs_FILE_eof)
  have d: "attrs ex_db_ab = [(''a.txt'', Some ?a), (''b.txt'', Some ?b)]"
    by (simp add: ex_db_ab_def)
  show ?thesis
    unfolding w gw using d a b e f u by simp
qed

subsection \<open>C7: after Remove\<close>

text \<open>
  C7, as stated, fails for a path that is not canonical (\<^verbatim>\<open>SetFileAttrs\<close> and
  \<^verbatim>\<open>GetFileAttrs\<close> key the overlay by the file name of the path as given, \<^verbatim>\<open>Remove\<close>
  erases the file name of the canonical path) and for a handle that another path shares
  (only the entries keyed by the path and by the handle are erased). Amended claim C7: when the canonical path
  of \<open>p\<close> has a handle and an overlay record, \<^verbatim>\<open>Remove(p)\<close> returns, and afterwards
  \<open>path2handle\<close> has no entry for the canonical path, \<open>handle2path\<close> has no entry for
  the old handle, \<^verbatim>\<open>GetAbsolutePath\<close> of the old handle fails, and \<^verbatim>\<open>GetFileAttrs\<close> of
  the canonical path returns null.\<close>

theorem Remove_erases:
  assumes reg: "path2handle ft (canonicalize h p) = Some handle"
    and ov: "FileTable_GetFileAttrs h ft (canonicalize h p) = Some (ft0, Some a)"
  shows "\<exists>ft'. Remove h ft p = Some ft' \<and>
           path2handle ft' (canonicalize h p) = None \<and>
           handle2path ft' handle = None \<and>
           GetAbsolutePath ft' handle = None \<and>
           (\<exists>ft''. FileTable_GetFileAttrs h ft' (canonicalize h p) = Some (ft'', None))"
proof -
  let ?cp = "canonicalize h p"
  let ?ph = "(path2handle ft)(?cp := None)"
  let ?hp = "(handle2path ft)(handle := None)"
  obtain ft1 d db where g: "GetDB h ft ?cp = Some (ft1, d, db)"
    using ov by (auto simp: FileTable_GetFileAttrs_def split: option.splits)
  let ?db = "db\<lparr>attrs := map_erase (filename ?cp) (attrs db)\<rparr>"
  have present: "map_of (attrs db) (filename ?cp) = Some (Some a)"
    using ov g by (auto simp: FileTable_GetFileAttrs_def FileAttrDB_GetFileAttrs_def Let_def split: option.splits)
  have rm: "FileAttrDB_Remove db ?cp = (?db, True)"
    using present by (simp add: FileAttrDB_Remove_def)
  let ?ft2 = "ft1\<lparr>path2handle := ?ph, handle2path := ?hp\<rparr>"
  let ?ft' = "put_db ?ft2 d (?db, True)"
  have r: "Remove h ft p = Some ?ft'"
    using reg GetDB_handles [OF g, where ph = ?ph and hp = ?hp] rm by (simp add: Remove_def Let_def)
  have ft': "?ft' = (Dirty ?ft2 d)\<lparr>path2db := (path2db ft1)(d \<mapsto> ?db)\<rparr>"
    by (simp add: put_db_def Dirty_def)
  have g2: "GetDB h ?ft2 ?cp = Some (?ft2, d, db)"
    using GetDB_Some(1,2) [OF g] by (simp add: GetDB_cases)
  have g': "GetDB h ?ft' ?cp = Some (?ft', d, ?db)"
    using GetDB_Some(1) [OF g] by (simp add: GetDB_cases put_db_def Dirty_def)
  have "\<exists>ft''. FileTable_GetFileAttrs h ?ft' ?cp = Some (ft'', None)"
    using g' by (simp add: FileTable_GetFileAttrs_def FileAttrDB_GetFileAttrs_def map_of_map_erase Let_def)
  moreover have "path2handle ?ft' ?cp = None" "handle2path ?ft' handle = None"
    by (simp_all add: put_db_def Dirty_def)
  ultimately show ?thesis
    using r by (simp add: GetAbsolutePath_def)
qed

text \<open>An instance: the registered file /d/x with an overlay record.\<close>

theorem Remove_erases_witness:
  "path2handle ex_table_reg (canonicalize ex_host ''/d/x'') = Some ex_handle \<and>
   FileTable_GetFileAttrs ex_host ex_table_reg (canonicalize ex_host ''/d/x'') = Some (ex_table_reg, Some ex_attrs) \<and>
   (\<exists>ft'. Remove ex_host ex_table_reg ''/d/x'' = Some ft' \<and> path2handle ft' ''/d/x'' = None \<and>
      GetAbsolutePath ft' ex_handle = None \<and>
      (\<exists>ft''. FileTable_GetFileAttrs ex_host ft' ''/d/x'' = Some (ft'', None)))"
proof -
  have c: "canonicalize ex_host ''/d/x'' = ''/d/x''"
    by (simp add: ex_defs op_defs)
  have 1: "path2handle ex_table_reg (canonicalize ex_host ''/d/x'') = Some ex_handle"
    by (simp add: c ex_table_reg_def)
  have 2: "FileTable_GetFileAttrs ex_host ex_table_reg (canonicalize ex_host ''/d/x'') = Some (ex_table_reg, Some ex_attrs)"
    by (simp add: ex_defs ex_defs2 op_defs)
  show ?thesis
    using Remove_erases [OF 1 2] 1 2 unfolding c by blast
qed

text \<open>
  The claim as stated is false in two ways. For the symbolic link /d/link to /d/target:
  the path has a handle and an overlay record, and after \<^verbatim>\<open>Remove("/d/link")\<close> the
  record is still what \<^verbatim>\<open>GetFileAttrs("/d/link")\<close> returns. For the hard links /d/a and
  /d/b, registered with one handle: after \<^verbatim>\<open>Remove("/d/a")\<close> the handle is still in
  \<open>path2handle\<close>, as the handle of /d/b.\<close>

theorem Remove_counterexample:
  "GetFileHandle ex_host_link FileTable_FileTable ''/d/link'' = (ex_link_1, ex_handle) \<and>
   FileTable_SetFileAttrs ex_host_link ex_link_1 ''/d/link'' ex_attrs = Some ex_link_2 \<and>
   GetFileHandle ex_host_link ex_link_2 ''/d/link'' = (ex_link_2, ex_handle) \<and>
   FileTable_GetFileAttrs ex_host_link ex_link_2 ''/d/link'' = Some (ex_link_2, Some ex_attrs) \<and>
   Remove ex_host_link ex_link_2 ''/d/link'' = Some ex_link_3 \<and>
   FileTable_GetFileAttrs ex_host_link ex_link_3 ''/d/link'' = Some (ex_link_3, Some ex_attrs) \<and>
   FileTable_SetFileAttrs ex_host_hard ex_hard_2 ''/d/a'' ex_attrs = Some ex_hard_3 \<and>
   GetFileHandle ex_host_hard ex_hard_3 ''/d/a'' = (ex_hard_3, ex_handle) \<and>
   Remove ex_host_hard ex_hard_3 ''/d/a'' = Some ex_hard_4 \<and>
   path2handle ex_hard_4 ''/d/b'' = Some ex_handle"
proof -
  have link: "GetFileHandle ex_host_link FileTable_FileTable ''/d/link'' = (ex_link_1, ex_handle) \<and>
   FileTable_SetFileAttrs ex_host_link ex_link_1 ''/d/link'' ex_attrs = Some ex_link_2 \<and>
   GetFileHandle ex_host_link ex_link_2 ''/d/link'' = (ex_link_2, ex_handle) \<and>
   FileTable_GetFileAttrs ex_host_link ex_link_2 ''/d/link'' = Some (ex_link_2, Some ex_attrs) \<and>
   Remove ex_host_link ex_link_2 ''/d/link'' = Some ex_link_3 \<and>
   FileTable_GetFileAttrs ex_host_link ex_link_3 ''/d/link'' = Some (ex_link_3, Some ex_attrs)"
    by (simp add: ex_defs ex_defs2 op_defs GetFileHandle_def Remove_def ex_handles(1) [unfolded ex_stat_def ex_handle_def])
  have hard: "FileTable_SetFileAttrs ex_host_hard ex_hard_2 ''/d/a'' ex_attrs = Some ex_hard_3 \<and>
   GetFileHandle ex_host_hard ex_hard_3 ''/d/a'' = (ex_hard_3, ex_handle) \<and>
   Remove ex_host_hard ex_hard_3 ''/d/a'' = Some ex_hard_4 \<and>
   path2handle ex_hard_4 ''/d/b'' = Some ex_handle"
    by (simp add: ex_host_hard_def ex_host_def plain_host_def ex_hard_2_def ex_hard_3_def ex_hard_4_def ex_dirname_def op_defs
        GetFileHandle_def Remove_def map_erase_def fun_upd_twist)
  show ?thesis using link hard by blast
qed

subsection \<open>C8: no empty sidecar file\<close>

text \<open>
  C8 does not hold of the code: \<^verbatim>\<open>FileAttrDB::Write\<close> opens the file when the map has
  an entry, and null entries count. The run: on a host without a sidecar file in /d,
  \<^verbatim>\<open>GetFileHandle("/d/x")\<close>, \<^verbatim>\<open>Stat("/d/x")\<close> and \<^verbatim>\<open>Stat("/d/z")\<close> (each inserts a
  null entry), \<^verbatim>\<open>Remove("/d/x")\<close> (erases the entry of x and marks the store dirty), and
  one turn of the maintenance loop, which creates /d/.nfsd_fattrs with no record in it.\<close>

theorem empty_sidecar_created:
  "files ex_host ''/d/.nfsd_fattrs'' = None \<and>
   GetFileHandle ex_host FileTable_FileTable ''/d/x'' = (ex_null_1, ex_handle) \<and>
   FileTable_Stat ex_host ex_null_1 ''/d/x'' ex_stat = Some (ex_null_2, 0, ex_stat) \<and>
   FileTable_Stat ex_host ex_null_2 ''/d/z'' ex_stat = Some (ex_null_3, - 1, ex_stat) \<and>
   Remove ex_host ex_null_3 ''/d/x'' = Some ex_null_4 \<and>
   Run_cycle ex_host ex_null_4 = (ex_host\<lparr>files := [''/d/.nfsd_fattrs'' \<mapsto> '''']\<rparr>, ex_null_5)"
  by (simp add: ex_null_defs ex_host_def plain_host_def ex_dirname_def op_defs GetFileHandle_def ex_handles Remove_def
      map_erase_def Run_cycle_def FileTable_Write_def FileAttrDB_Write_def)

subsection \<open>C9: GetFileAttrs inserts a null entry\<close>

text \<open>
  C9, as stated, fails for a name that has a null entry already: a second lookup inserts
  nothing and the number of entries does not grow. Amended claim C9: when the store has no
  entry at all under the file name of the path, \<^verbatim>\<open>FileAttrDB::GetFileAttrs\<close> returns
  null and leaves the store with a null entry under that name: the other entries are as
  before and the number of entries is one more. When the store has an entry under the
  name, null or not, it returns the value of the entry and leaves the store as it was.
  \<^verbatim>\<open>FileTable::GetFileAttrs\<close> returns exactly when \<^verbatim>\<open>GetDB\<close> does, and then it
  does this to the store that \<^verbatim>\<open>GetDB\<close> returns and changes nothing else (the store is
  not marked dirty); on a table that has the store of the directory it returns. A write
  of a store that has an entry and whose file can be opened keeps exactly the entries that
  are not null, so an inserted null entry is erased, and the file holds the lines of the
  entries that are not null.\<close>

theorem GetFileAttrs_inserts_null:
  "(map_of (attrs db) (filename p) = None \<longrightarrow>
      FileAttrDB_GetFileAttrs db p = (db\<lparr>attrs := map_assign (filename p) None (attrs db)\<rparr>, None) \<and>
      map_of (map_assign (filename p) None (attrs db)) = (map_of (attrs db))(filename p \<mapsto> None) \<and>
      length (map_assign (filename p) None (attrs db)) = Suc (length (attrs db)) \<and>
      map_of (filter (\<lambda>e. snd e \<noteq> None) (map_assign (filename p) None (attrs db))) (filename p) = None) \<and>
   (\<forall>v. map_of (attrs db) (filename p) = Some v \<longrightarrow> FileAttrDB_GetFileAttrs db p = (db, v)) \<and>
   FileTable_GetFileAttrs h ft p =
     (case GetDB h ft p of
        None \<Rightarrow> None
      | Some (ft1, d, db1) \<Rightarrow>
          Some (ft1\<lparr>path2db := (path2db ft1)(d \<mapsto> fst (FileAttrDB_GetFileAttrs db1 p))\<rparr>,
                snd (FileAttrDB_GetFileAttrs db1 p))) \<and>
   (path2db ft (dirname h (canonicalize h p)) = Some db \<longrightarrow>
      FileTable_GetFileAttrs h ft p =
        Some (ft\<lparr>path2db := (path2db ft)(dirname h (canonicalize h p) \<mapsto> fst (FileAttrDB_GetFileAttrs db p))\<rparr>,
              snd (FileAttrDB_GetFileAttrs db p))) \<and>
   (attrs db \<noteq> [] \<and> writable hw (path db) \<longrightarrow>
      attrs (snd (FileAttrDB_Write hw db)) = filter (\<lambda>e. snd e \<noteq> None) (attrs db) \<and>
      files (fst (FileAttrDB_Write hw db)) (path db) = Some (concat (map record_line (attrs db))))"
proof -
  have 1: "FileAttrDB_GetFileAttrs db p = (db\<lparr>attrs := map_assign (filename p) None (attrs db)\<rparr>, None) \<and>
      map_of (map_assign (filename p) None (attrs db)) = (map_of (attrs db))(filename p \<mapsto> None) \<and>
      length (map_assign (filename p) None (attrs db)) = Suc (length (attrs db)) \<and>
      map_of (filter (\<lambda>e. snd e \<noteq> None) (map_assign (filename p) None (attrs db))) (filename p) = None"
    if n: "map_of (attrs db) (filename p) = None"
    using n map_of_filter_null_assign [OF n]
    by (simp add: FileAttrDB_GetFileAttrs_def map_of_map_assign length_map_assign)
  have 2: "FileAttrDB_GetFileAttrs db p = (db, v)" if "map_of (attrs db) (filename p) = Some v" for v
    using that by (simp add: FileAttrDB_GetFileAttrs_def)
  have 5: "FileTable_GetFileAttrs h ft p =
     (case GetDB h ft p of
        None \<Rightarrow> None
      | Some (ft1, d, db1) \<Rightarrow>
          Some (ft1\<lparr>path2db := (path2db ft1)(d \<mapsto> fst (FileAttrDB_GetFileAttrs db1 p))\<rparr>,
                snd (FileAttrDB_GetFileAttrs db1 p)))"
    by (simp add: FileTable_GetFileAttrs_def put_db_def split: option.splits prod.splits)
  have 3: "FileTable_GetFileAttrs h ft p =
        Some (ft\<lparr>path2db := (path2db ft)(dirname h (canonicalize h p) \<mapsto> fst (FileAttrDB_GetFileAttrs db p))\<rparr>,
              snd (FileAttrDB_GetFileAttrs db p))"
    if "path2db ft (dirname h (canonicalize h p)) = Some db"
    using that by (simp add: 5 GetDB_cases)
  have 4: "attrs (snd (FileAttrDB_Write hw db)) = filter (\<lambda>e. snd e \<noteq> None) (attrs db) \<and>
      files (fst (FileAttrDB_Write hw db)) (path db) = Some (concat (map record_line (attrs db)))"
    if "attrs db \<noteq> [] \<and> writable hw (path db)"
    using that by (simp add: FileAttrDB_Write_def write_loop_eq)
  show ?thesis
    using 1 2 3 4 5 by blast
qed

text \<open>
  An instance: the store of /d holds an entry for a, and /d/z is looked up; a write of the
  store keeps the entry of a and writes its line. A lookup of /d/z in the store that has
  the null entry returns null and the same store.\<close>

theorem GetFileAttrs_inserts_null_witness:
  "map_of (attrs ex_db) (filename ''/d/z'') = None \<and>
   path2db ex_table (dirname ex_host (canonicalize ex_host ''/d/z'')) = Some ex_db \<and>
   FileTable_GetFileAttrs ex_host ex_table ''/d/z'' = Some (ex_table_z, None) \<and>
   dirty ex_table_z = dirty ex_table \<and>
   path2db ex_table_z ''/d'' = Some \<lparr>path = ''/d/.nfsd_fattrs'', attrs = [(''a'', Some ex_attrs), (''z'', None)]\<rparr> \<and>
   length (attrs ex_db) = 1 \<and>
   writable ex_host ''/d/.nfsd_fattrs'' \<and>
   attrs (snd (FileAttrDB_Write ex_host \<lparr>path = ''/d/.nfsd_fattrs'', attrs = [(''a'', Some ex_attrs), (''z'', None)]\<rparr>)) =
     [(''a'', Some ex_attrs)] \<and>
   files (fst (FileAttrDB_Write ex_host \<lparr>path = ''/d/.nfsd_fattrs'', attrs = [(''a'', Some ex_attrs), (''z'', None)]\<rparr>))
     ''/d/.nfsd_fattrs'' = Some (FileAttrs_Write ex_attrs ''a'') \<and>
   map_of [(''a'', Some ex_attrs), (''z'', None)] (filename ''/d/z'') = Some None \<and>
   FileAttrDB_GetFileAttrs \<lparr>path = ''/d/.nfsd_fattrs'', attrs = [(''a'', Some ex_attrs), (''z'', None)]\<rparr> ''/d/z'' =
     (\<lparr>path = ''/d/.nfsd_fattrs'', attrs = [(''a'', Some ex_attrs), (''z'', None)]\<rparr>, None)"
proof -
  let ?dz = "\<lparr>path = ''/d/.nfsd_fattrs'', attrs = [(''a'', Some ex_attrs), (''z'', None)]\<rparr>"
  have 1: "map_of (attrs ex_db) (filename ''/d/z'') = None"
    by (simp add: ex_defs op_defs)
  have 2: "path2db ex_table (dirname ex_host (canonicalize ex_host ''/d/z'')) = Some ex_db"
    by (simp add: ex_defs op_defs)
  have 3: "map_assign (filename ''/d/z'') None (attrs ex_db) = [(''a'', Some ex_attrs), (''z'', None)]"
    by (simp add: ex_defs op_defs)
  have d: "dirname ex_host (canonicalize ex_host ''/d/z'') = ''/d''"
    by (simp add: ex_defs op_defs)
  have w: "attrs ?dz \<noteq> [] \<and> writable ex_host (path ?dz)"
    by (simp add: ex_host_def plain_host_def)
  note t = GetFileAttrs_inserts_null [where db = ex_db and p = "''/d/z''" and ft = ex_table and h = ex_host and hw = ex_host]
  from t 1 have g: "FileAttrDB_GetFileAttrs ex_db ''/d/z'' = (ex_db\<lparr>attrs := map_assign (filename ''/d/z'') None (attrs ex_db)\<rparr>, None)"
    by blast
  from t 2 have f: "FileTable_GetFileAttrs ex_host ex_table ''/d/z'' =
        Some (ex_table\<lparr>path2db := (path2db ex_table)(dirname ex_host (canonicalize ex_host ''/d/z'') \<mapsto> fst (FileAttrDB_GetFileAttrs ex_db ''/d/z''))\<rparr>,
              snd (FileAttrDB_GetFileAttrs ex_db ''/d/z''))"
    by blast
  have f': "FileTable_GetFileAttrs ex_host ex_table ''/d/z'' = Some (ex_table_z, None)"
    unfolding f g 3 d by (simp add: ex_table_z_def ex_table_def ex_db_def)
  from GetFileAttrs_inserts_null [where db = ?dz and p = "''/d/z''" and ft = ex_table and h = ex_host and hw = ex_host] w
  have "attrs (snd (FileAttrDB_Write ex_host ?dz)) = filter (\<lambda>e. snd e \<noteq> None) (attrs ?dz) \<and>
      files (fst (FileAttrDB_Write ex_host ?dz)) (path ?dz) = Some (concat (map record_line (attrs ?dz)))"
    by blast
  then have wr: "attrs (snd (FileAttrDB_Write ex_host ?dz)) = [(''a'', Some ex_attrs)] \<and>
      files (fst (FileAttrDB_Write ex_host ?dz)) ''/d/.nfsd_fattrs'' = Some (FileAttrs_Write ex_attrs ''a'')"
    by (simp add: record_line_simps)
  have n: "map_of (attrs ?dz) (filename ''/d/z'') = Some None"
    by (simp add: filename_def)
  from GetFileAttrs_inserts_null [where db = ?dz and p = "''/d/z''" and ft = ex_table and h = ex_host and hw = ex_host] n
  have s: "FileAttrDB_GetFileAttrs ?dz ''/d/z'' = (?dz, None)"
    by blast
  show ?thesis
    using 1 2 f' wr w n s by (simp add: ex_table_z_def ex_table_def ex_db_def)
qed

text \<open>
  The claim as stated is false there: the first lookup of /d/z inserts the null entry; /d/z
  still has no record, and the second lookup returns null and leaves the table as it was,
  the store of /d with its two entries.\<close>

theorem second_lookup_counterexample:
  "FileTable_GetFileAttrs ex_host ex_table ''/d/z'' = Some (ex_table_z, None) \<and>
   path2db ex_table_z ''/d'' = Some \<lparr>path = ''/d/.nfsd_fattrs'', attrs = [(''a'', Some ex_attrs), (''z'', None)]\<rparr> \<and>
   FileTable_GetFileAttrs ex_host ex_table_z ''/d/z'' = Some (ex_table_z, None) \<and>
   FileAttrDB_GetFileAttrs \<lparr>path = ''/d/.nfsd_fattrs'', attrs = [(''a'', Some ex_attrs), (''z'', None)]\<rparr> ''/d/z'' =
     (\<lparr>path = ''/d/.nfsd_fattrs'', attrs = [(''a'', Some ex_attrs), (''z'', None)]\<rparr>, None)"
  by (simp add: ex_defs ex_table_z_def op_defs)

subsection \<open>C10: Move of a path without a handle\<close>

text \<open>
  C10: when the canonical source has no handle, \<^verbatim>\<open>Move\<close> returns the table it was given:
  the registry, every store and the dirty set are unchanged.\<close>

theorem Move_unregistered:
  "path2handle ft (canonicalize h pFrom) = None \<Longrightarrow> Move h ft pFrom pTo fstat = Some ft"
  by (simp add: Move_def Let_def)

text \<open>An instance: /d/a has an overlay record and no handle.\<close>

theorem Move_unregistered_witness:
  "path2handle ex_table (canonicalize ex_host ''/d/a'') = None \<and>
   map_of (attrs ex_db) ''a'' = Some (Some ex_attrs) \<and>
   Move ex_host ex_table ''/d/a'' ''/d/b'' ex_stat = Some ex_table"
  using Move_unregistered [of ex_table ex_host "''/d/a''" "''/d/b''" ex_stat]
  by (simp add: ex_table_def ex_db_def)

end
